theory Spec2Isabelle
  imports Complex_Main "HOL-Library.Word" "HOL-Library.Signed_Division"
begin

unbundle bit_operations_syntax

chapter \<open>The periodic-table card generator: model\<close>

text \<open>
  The repository holds two Go programs that draw one PNG card per chemical element:
  \<^item> \<^verbatim>\<open>main.go\<close>, which fetches the element list, normalises the category names,
    scales the card from a \<^verbatim>\<open>-height\<close> flag and frames it with a border in the
    category's colour;
  \<^item> a second program with the element list embedded, a fixed card size and a
    background in the category's colour.
  Both are modelled here, function by function. Constants of the first program keep
  their Go names; where the two programs share a name, the second program's constant
  carries the suffix \<open>_embedded\<close>.
\<close>

section \<open>The Go library functions the programs call\<close>

text \<open>
  A Go string is a sequence of bytes, and so is a HOL \<^typ>\<open>string\<close>. The functions of
  package \<^verbatim>\<open>strings\<close> are modelled on bytes with Go's ASCII classification, which is
  the path Go itself takes on a string without a byte above \<open>0x7f\<close>: upper-case
  letters are \<open>A\<close> to \<open>Z\<close>, white space is tab, line feed, vertical tab, form feed,
  carriage return and space. Bytes from \<open>0x80\<close> on, which Go would decode as UTF-8
  and look up in the tables of package \<^verbatim>\<open>unicode\<close>, are carried through unchanged:
  in this model they are neither cased letters nor white space.
\<close>

definition isSpace :: "char \<Rightarrow> bool" where
  "isSpace c = (let n = (of_char c :: nat) in (9 \<le> n \<and> n \<le> 13) \<or> n = 32)"









text \<open>\<^verbatim>\<open>strings.TrimSpace\<close> and \<^verbatim>\<open>strings.TrimPrefix\<close>.\<close>

definition TrimSpace :: "string \<Rightarrow> string" where
  "TrimSpace s = rev (dropWhile isSpace (rev (dropWhile isSpace s)))"

definition TrimPrefix :: "string \<Rightarrow> string \<Rightarrow> string" where
  "TrimPrefix s p = (if take (length p) s = p then drop (length p) s else s)"

section \<open>The category normaliser (main.go)\<close>





section \<open>Colours\<close>

text \<open>\<^verbatim>\<open>color.RGBA\<close>: four bytes. \<^verbatim>\<open>Colours\<close> and \<^verbatim>\<open>colorMap\<close>: \<^verbatim>\<open>map[string]string\<close>.\<close>

record rgba =
  R :: "8 word"
  G :: "8 word"
  B :: "8 word"
  A :: "8 word"

type_synonym Colours = "string \<rightharpoonup> string"

text \<open>Reading a Go map at a key it does not hold gives the zero value, the empty string.\<close>

definition mapIndex :: "Colours \<Rightarrow> string \<Rightarrow> string" where
  "mapIndex m k = (case m k of Some v \<Rightarrow> v | None \<Rightarrow> [])"

subsection \<open>\<^verbatim>\<open>fmt.Sscanf(h, "%02x%02x%02x", &c.R, &c.G, &c.B)\<close>\<close>

text \<open>
  Each verb \<^verbatim>\<open>%02x\<close> first skips white space, where a line feed is an error since the
  format has none, and then reads a hexadecimal number of one or two digits: the first
  byte must be a digit, the second is taken when it is one. The number is stored through
  the pointer. The first verb that fails ends the call; what was stored stays and the
  remaining fields keep their values. \<^verbatim>\<open>hexToRGBA\<close> drops the error \<^verbatim>\<open>Sscanf\<close> returns.
\<close>

definition isHexDigit :: "char \<Rightarrow> bool" where
  "isHexDigit c = (c \<in> set ''0123456789aAbBcCdDeEfF'')"

definition hexDigitVal :: "char \<Rightarrow> nat" where
  "hexDigitVal c = (let n = (of_char c :: nat) in
     if 48 \<le> n \<and> n \<le> 57 then n - 48
     else if 97 \<le> n \<and> n \<le> 102 then n - 97 + 10
     else if 65 \<le> n \<and> n \<le> 70 then n - 65 + 10
     else 0)"

fun SkipSpace :: "string \<Rightarrow> string option" where
  "SkipSpace [] = Some []"
| "SkipSpace (c # cs) =
     (if c = CHR 0x0A then None
      else if isSpace c then SkipSpace cs
      else Some (c # cs))"

definition scanHex2 :: "string \<Rightarrow> (8 word \<times> string) option" where
  "scanHex2 s =
     (case SkipSpace s of
        None \<Rightarrow> None
      | Some [] \<Rightarrow> None
      | Some (c # cs) \<Rightarrow>
          if \<not> isHexDigit c then None
          else (case cs of
                  [] \<Rightarrow> Some (of_nat (hexDigitVal c), [])
                | d # ds \<Rightarrow>
                    if isHexDigit d then Some (of_nat (16 * hexDigitVal c + hexDigitVal d), ds)
                    else Some (of_nat (hexDigitVal c), d # ds)))"

definition Sscanf_rgb :: "string \<Rightarrow> rgba \<Rightarrow> rgba" where
  "Sscanf_rgb h c =
     (case scanHex2 h of
        None \<Rightarrow> c
      | Some (r, h1) \<Rightarrow>
          (case scanHex2 h1 of
             None \<Rightarrow> c\<lparr>R := r\<rparr>
           | Some (g, h2) \<Rightarrow>
               (case scanHex2 h2 of
                  None \<Rightarrow> c\<lparr>R := r, G := g\<rparr>
                | Some (b, h3) \<Rightarrow> c\<lparr>R := r, G := g, B := b\<rparr>)))"

subsection \<open>\<^verbatim>\<open>hexToRGBA\<close> and the border colour (main.go)\<close>

definition hexToRGBA :: "string \<Rightarrow> rgba" where
  "hexToRGBA h0 =
     (let h = TrimPrefix (TrimSpace h0) ''#'';
          h = (if length h = 3 then [h ! 0, h ! 0, h ! 1, h ! 1, h ! 2, h ! 2] else h)
      in if length h \<noteq> 6 then \<lparr>R = 0, G = 0, B = 0, A = 255\<rparr>
         else (Sscanf_rgb h \<lparr>R = 0, G = 0, B = 0, A = 0\<rparr>)\<lparr>A := 255\<rparr>)"

text \<open>
  Lines 202 to 205 of the batch loop: \<^verbatim>\<open>border := hexToRGBA(colours[e.Type])\<close>, replaced
  by black when the key is not in the table.
\<close>

definition border :: "Colours \<Rightarrow> string \<Rightarrow> rgba" where
  "border colours ty =
     (let b = hexToRGBA (mapIndex colours ty)
      in if colours ty = None then \<lparr>R = 0, G = 0, B = 0, A = 255\<rparr> else b)"

subsection \<open>\<^verbatim>\<open>parseHexColor\<close> and the background colour (embedded-data program)\<close>

text \<open>
  \<^verbatim>\<open>parseHexColor\<close> returns a colour and an error. Its closure \<^verbatim>\<open>hexToByte\<close> assigns to the
  error variable of the enclosing function, so the model passes that variable through:
  a bad digit overwrites it, a good one leaves it. Indexing \<^verbatim>\<open>s[0]\<close> on the empty
  string is a run-time panic.
\<close>

datatype parse_error = MissingHash | InvalidHexChar char | InvalidLength nat

datatype panic = IndexOutOfRange

definition hexToByte :: "char \<Rightarrow> parse_error option \<Rightarrow> 8 word \<times> parse_error option" where
  "hexToByte b err = (let n = (of_char b :: nat) in
     if 48 \<le> n \<and> n \<le> 57 then (of_char b - 48, err)
     else if 97 \<le> n \<and> n \<le> 102 then (of_char b - 97 + 10, err)
     else if 65 \<le> n \<and> n \<le> 70 then (of_char b - 65 + 10, err)
     else (0, Some (InvalidHexChar b)))"

definition parseHexColor :: "string \<Rightarrow> panic + (rgba \<times> parse_error option)" where
  "parseHexColor s =
     (let c = \<lparr>R = 0, G = 0, B = 0, A = 0xff\<rparr> in
      if s = [] then Inl IndexOutOfRange
      else if s ! 0 \<noteq> CHR ''#'' then Inr (c, Some MissingHash)
      else if length s = 7 then
        (let (r1, err) = hexToByte (s ! 1) None;
             (r2, err) = hexToByte (s ! 2) err;
             (g1, err) = hexToByte (s ! 3) err;
             (g2, err) = hexToByte (s ! 4) err;
             (b1, err) = hexToByte (s ! 5) err;
             (b2, err) = hexToByte (s ! 6) err
         in Inr (c\<lparr>R := push_bit 4 r1 + r2, G := push_bit 4 g1 + g2, B := push_bit 4 b1 + b2\<rparr>,
                 err))
      else Inr (c, Some (InvalidLength (length s))))"

text \<open>
  Lines 84 to 92 of the batch loop: the hex string of the category, or of \<open>unknown\<close>
  when the category is not in the table; gray and a line in the log when it does not
  parse. The log line carries the hex string and the element's name.
\<close>

datatype log_line =
    ColourWarning string string
  | CreateFailed string
  | EncodeFailed string

definition hexStr :: "Colours \<Rightarrow> string \<Rightarrow> string" where
  "hexStr colorMap category =
     (if colorMap category = None then mapIndex colorMap ''unknown''
      else mapIndex colorMap category)"

definition bgColor :: "Colours \<Rightarrow> string \<Rightarrow> string \<Rightarrow> panic + (rgba \<times> log_line list)" where
  "bgColor colorMap category name =
     (case parseHexColor (hexStr colorMap category) of
        Inl p \<Rightarrow> Inl p
      | Inr (c, None) \<Rightarrow> Inr (c, [])
      | Inr (c, Some e) \<Rightarrow>
          Inr (\<lparr>R = 224, G = 224, B = 224, A = 255\<rparr>,
               [ColourWarning (hexStr colorMap category) name]))"

section \<open>Floating-point arithmetic\<close>

text \<open>
  A finite \<^verbatim>\<open>float64\<close> is the rational number it denotes, and an operation is the exact
  result rounded: to the nearest number with 53 significant bits, and to the one with
  an even last bit on a tie. For a nonzero \<open>x\<close> with \<open>2\<^sup>e \<le> \<bar>x\<bar> < 2\<^sup>e\<^sup>+\<^sup>1\<close> these numbers
  are the multiples of \<open>2\<^sup>e\<^sup>-\<^sup>5\<^sup>2\<close>. The exponent range of the format is left out: the
  values of this program lie between \<open>2\<^sup>-\<^sup>4\<close> and \<open>2\<^sup>6\<^sup>4\<close>, far inside it.
\<close>

text \<open>Rounding to the nearest integer, to the even one on a tie.\<close>

definition rne :: "rat \<Rightarrow> int" where
  "rne x = (let f = \<lfloor>x\<rfloor>; d = x - of_int f
            in if d < 1 / 2 then f else if 1 / 2 < d then f + 1
               else if even f then f else f + 1)"

text \<open>The number of binary digits of a natural number.\<close>

fun bitlen :: "nat \<Rightarrow> nat" where
  "bitlen n = (if n = 0 then 0 else Suc (bitlen (n div 2)))"

declare bitlen.simps [simp del]

text \<open>The exponent \<open>e\<close> with \<open>2\<^sup>e \<le> x < 2\<^sup>e\<^sup>+\<^sup>1\<close>, for a positive \<open>x\<close>.\<close>

definition ilog2 :: "rat \<Rightarrow> int" where
  "ilog2 x = (if 1 \<le> x then int (bitlen (nat \<lfloor>x\<rfloor>)) - 1
              else - int (bitlen (nat (\<lceil>1 / x\<rceil> - 1))))"

definition f64_round :: "rat \<Rightarrow> rat" where
  "f64_round x =
     (if x = 0 then 0
      else (let u = 2 powi (ilog2 \<bar>x\<bar> - 52)
            in sgn x * of_int (rne (\<bar>x\<bar> / u)) * u))"

definition f64_of_int :: "int \<Rightarrow> rat" where
  "f64_of_int n = f64_round (of_int n)"

definition f64_mul :: "rat \<Rightarrow> rat \<Rightarrow> rat" where
  "f64_mul a b = f64_round (a * b)"

definition f64_div :: "rat \<Rightarrow> rat \<Rightarrow> rat" where
  "f64_div a b = f64_round (a / b)"

text \<open>
  The conversion \<^verbatim>\<open>int(x)\<close> discards the fraction. Go leaves the result to the
  implementation when it does not fit the integer type; the model is the mathematical
  value, and the properties below are stated where it fits.
\<close>

definition truncInt :: "rat \<Rightarrow> int" where
  "truncInt x = (if 0 \<le> x then \<lfloor>x\<rfloor> else \<lceil>x\<rceil>)"

section \<open>Canvas geometry and font sizes (main.go)\<close>

text \<open>
  Lines 167 to 169: \<^verbatim>\<open>ratio := float64(2456) / float64(1882)\<close> and
  \<^verbatim>\<open>tileW := int(ratio * float64(tileH))\<close>, with \<^verbatim>\<open>tileH\<close> the \<^verbatim>\<open>-height\<close> flag.
\<close>

definition ratio :: rat where
  "ratio = f64_div 2456 1882"

definition tileW :: "int \<Rightarrow> int" where
  "tileW tileH = truncInt (f64_mul ratio (f64_of_int tileH))"

text \<open>
  Lines 149 to 152 and 184 to 187: the size constants and the sizes the four faces are
  loaded with, \<^verbatim>\<open>float64(tileH)/numSize\<close> and so on.
\<close>

definition numSize :: rat where "numSize = 10"
definition symSize :: rat where "symSize = 3"
definition nameSize :: rat where "nameSize = 7"
definition massSize :: rat where "massSize = 10"

definition numFontSize :: "int \<Rightarrow> rat" where
  "numFontSize tileH = f64_div (f64_of_int tileH) numSize"

definition symFontSize :: "int \<Rightarrow> rat" where
  "symFontSize tileH = f64_div (f64_of_int tileH) symSize"

definition nameFontSize :: "int \<Rightarrow> rat" where
  "nameFontSize tileH = f64_div (f64_of_int tileH) nameSize"

definition massFontSize :: "int \<Rightarrow> rat" where
  "massFontSize tileH = f64_div (f64_of_int tileH) massSize"

section \<open>Elements and formatted text\<close>

text \<open>
  The element record of main.go, and the one of the embedded-data program, whose
  fields \<^verbatim>\<open>Name\<close> and \<^verbatim>\<open>Symbol\<close> carry a suffix here. A \<^verbatim>\<open>float64\<close> mass is the
  rational number it denotes. Go's \<^verbatim>\<open>int\<close> is modelled by \<^typ>\<open>int\<close>: the programs
  compute with atomic numbers and pixel counts, far from the 64-bit bounds, and integer
  division is Go's, which truncates toward zero (\<open>sdiv\<close>).
\<close>

record Element =
  Number :: int
  Symbol :: string
  Name :: string
  Mass :: rat
  Type :: string

record Element_embedded =
  Name_embedded :: string
  Symbol_embedded :: string
  AtomicNumber :: int
  AtomicMass :: rat
  Category :: string

text \<open>\<^verbatim>\<open>fmt.Sprintf\<close> with the verbs \<^verbatim>\<open>%d\<close> and \<^verbatim>\<open>%03d\<close>.\<close>

fun digitsOf :: "nat \<Rightarrow> string" where
  "digitsOf n = (if n < 10 then [char_of (48 + n)] else digitsOf (n div 10) @ [char_of (48 + n mod 10)])"

declare digitsOf.simps [simp del]

definition fmt_d :: "int \<Rightarrow> string" where
  "fmt_d n = (if n < 0 then ''-'' @ digitsOf (nat (- n)) else digitsOf (nat n))"

definition padZero :: "nat \<Rightarrow> string \<Rightarrow> string" where
  "padZero w s = replicate (w - length s) (CHR ''0'') @ s"

definition fmt_03d :: "int \<Rightarrow> string" where
  "fmt_03d n = (if n < 0 then ''-'' @ padZero 2 (digitsOf (nat (- n))) else padZero 3 (digitsOf (nat n)))"

text \<open>
  The verb \<^verbatim>\<open>%.4f\<close>: the decimal digits of the exact value, rounded to four places
  to the nearest, to the even digit on a tie.
\<close>

definition fmt_4f :: "rat \<Rightarrow> string" where
  "fmt_4f m =
     (let n = nat (rne (\<bar>m\<bar> * 10000))
      in (if m < 0 then ''-'' else []) @ digitsOf (n div 10000) @ ''.''
         @ padZero 4 (digitsOf (n mod 10000)))"

text \<open>
  \<^verbatim>\<open>filepath.Join\<close> of a directory and a file name. Both programs join a plain directory
  name with a name that has no separator, where the result is the two with a slash
  between them.
\<close>

definition Join_path :: "string \<Rightarrow> string \<Rightarrow> string" where
  "Join_path dir name = dir @ ''/'' @ name"

section \<open>The card layout (main.go)\<close>

text \<open>
  A font face is used through two measurements, both rounded to whole pixels by Go's
  \<^verbatim>\<open>Round()\<close>: the line height \<^verbatim>\<open>Metrics().Height\<close> and the width \<^verbatim>\<open>font.MeasureString\<close>
  gives a text. The four faces of the program are loaded once, before the loop.
\<close>

record Face =
  Height :: int
  MeasureString :: "string \<Rightarrow> int"

record Faces =
  numFont :: Face
  symFont :: Face
  nameFont :: Face
  massFont :: Face

text \<open>Border thickness and padding, lines 206 and 214.\<close>

definition bt :: "int \<Rightarrow> int" where
  "bt tileH = tileH sdiv 15"

definition pad :: "int \<Rightarrow> int" where
  "pad tileH = tileH sdiv 20"

text \<open>
  The origins \<^verbatim>\<open>drawText\<close> is called with, lines 216 to 231.
\<close>

definition numOrigin :: "Faces \<Rightarrow> int \<Rightarrow> int \<times> int" where
  "numOrigin fs tileH = (bt tileH + pad tileH, bt tileH + pad tileH + Height (numFont fs))"

definition massOrigin :: "Faces \<Rightarrow> int \<Rightarrow> int \<Rightarrow> string \<Rightarrow> int \<times> int" where
  "massOrigin fs w tileH massTxt =
     (let mw = MeasureString (massFont fs) massTxt
      in (w - bt tileH - pad tileH - mw, bt tileH + pad tileH + Height (massFont fs)))"

definition symOrigin :: "Faces \<Rightarrow> int \<Rightarrow> int \<Rightarrow> string \<Rightarrow> int \<times> int" where
  "symOrigin fs w tileH symbol =
     (let symW = MeasureString (symFont fs) symbol
      in ((w - symW) sdiv 2, tileH sdiv 2))"

definition nameOrigin :: "Faces \<Rightarrow> int \<Rightarrow> int \<Rightarrow> string \<Rightarrow> int \<times> int" where
  "nameOrigin fs w tileH name =
     (let nameW = MeasureString (nameFont fs) name
      in ((w - nameW) sdiv 2, tileH sdiv 2 + Height (nameFont fs) + pad tileH))"

text \<open>What one pass of the loop draws: the frame and the four text origins.\<close>

record tile =
  tile_border :: rgba
  tile_bt :: int
  tile_num :: "int \<times> int"
  tile_mass :: "int \<times> int"
  tile_sym :: "int \<times> int"
  tile_name :: "int \<times> int"

definition drawTile :: "Colours \<Rightarrow> Faces \<Rightarrow> int \<Rightarrow> int \<Rightarrow> Element \<Rightarrow> tile" where
  "drawTile colours fs w tileH e =
     \<lparr>tile_border = border colours (Type e),
      tile_bt = bt tileH,
      tile_num = numOrigin fs tileH,
      tile_mass = massOrigin fs w tileH (fmt_4f (Mass e)),
      tile_sym = symOrigin fs w tileH (Symbol e),
      tile_name = nameOrigin fs w tileH (Name e)\<rparr>"

section \<open>The batch loops\<close>

text \<open>
  The loops act on the file system, the standard output and the log. The model keeps
  them in a record: the files that hold a complete PNG, with what was drawn; the files
  that were created but whose encoding failed; the lines printed; the lines logged.
  Whether \<^verbatim>\<open>os.Create\<close> and \<^verbatim>\<open>png.Encode\<close> succeed on a path is the environment's choice.
\<close>

record 't world =
  files :: "(string \<times> 't) list"
  partial :: "string list"
  stdout :: "string list"
  log :: "log_line list"

record io =
  create_ok :: "string \<Rightarrow> bool"
  encode_ok :: "string \<Rightarrow> bool"

subsection \<open>main.go, lines 198 to 239\<close>

text \<open>
  \<^verbatim>\<open>f, _ := os.Create(...)\<close> drops the error. On a failed creation \<^verbatim>\<open>f\<close> is nil;
  \<^verbatim>\<open>png.Encode\<close> and \<^verbatim>\<open>f.Close\<close> then return errors, which are dropped too, and the
  line \<^verbatim>\<open>Written:\<close> is printed all the same. Nothing is logged. The four faces are
  taken as loaded: the program drops the errors of \<^verbatim>\<open>loadFont\<close> as well.
\<close>

definition fname :: "Element \<Rightarrow> string" where
  "fname e = fmt_03d (Number e) @ ''_'' @ Symbol e @ ''.png''"

definition step :: "io \<Rightarrow> string \<Rightarrow> (Element \<Rightarrow> tile) \<Rightarrow> Element \<Rightarrow> tile world \<Rightarrow> tile world" where
  "step env outdir draw e w =
     (let img = draw e;
          path = Join_path outdir (fname e);
          w = (if create_ok env path
               then (if encode_ok env path then w\<lparr>files := files w @ [(path, img)]\<rparr>
                     else w\<lparr>partial := partial w @ [path]\<rparr>)
               else w)
      in w\<lparr>stdout := stdout w @ [''Written: '' @ fname e]\<rparr>)"

fun run :: "io \<Rightarrow> string \<Rightarrow> (Element \<Rightarrow> tile) \<Rightarrow> Element list \<Rightarrow> tile world \<Rightarrow> tile world" where
  "run env outdir draw [] w = w"
| "run env outdir draw (e # es) w = run env outdir draw es (step env outdir draw e w)"

subsection \<open>The embedded-data program, lines 80 to 142\<close>

text \<open>
  A failed creation is logged and \<^verbatim>\<open>continue\<close> skips the rest of the pass; a failed
  encoding is logged, and the line \<^verbatim>\<open>Created\<close> is printed after it. A panic of
  \<^verbatim>\<open>parseHexColor\<close> ends the program. What is drawn is the background colour; the text
  positions of this program are constants.
\<close>

definition filename :: "Element_embedded \<Rightarrow> string" where
  "filename el = fmt_03d (AtomicNumber el) @ ''-'' @ Name_embedded el @ ''.png''"

definition step_embedded ::
    "io \<Rightarrow> Colours \<Rightarrow> Element_embedded \<Rightarrow> rgba world \<Rightarrow> panic + rgba world" where
  "step_embedded env colorMap el w =
     (case bgColor colorMap (Category el) (Name_embedded el) of
        Inl p \<Rightarrow> Inl p
      | Inr (c, warnings) \<Rightarrow>
          (let w = w\<lparr>log := log w @ warnings\<rparr>;
               path = Join_path ''elements'' (filename el)
           in if \<not> create_ok env path
              then Inr (w\<lparr>log := log w @ [CreateFailed (Name_embedded el)]\<rparr>)
              else (let w = (if encode_ok env path then w\<lparr>files := files w @ [(path, c)]\<rparr>
                             else w\<lparr>partial := partial w @ [path],
                                    log := log w @ [EncodeFailed (Name_embedded el)]\<rparr>)
                    in Inr (w\<lparr>stdout := stdout w @ [''Created '' @ path]\<rparr>))))"

fun run_embedded ::
    "io \<Rightarrow> Colours \<Rightarrow> Element_embedded list \<Rightarrow> rgba world \<Rightarrow> panic + rgba world" where
  "run_embedded env colorMap [] w = Inr w"
| "run_embedded env colorMap (el # els) w =
     (case step_embedded env colorMap el w of
        Inl p \<Rightarrow> Inl p
      | Inr w' \<Rightarrow> run_embedded env colorMap els w')"

section \<open>Terms in which the properties are stated\<close>

text \<open>
  The byte that two hexadecimal digits denote, and the one string form that
  \<^verbatim>\<open>parseHexColor\<close> accepts: a hash sign and six hexadecimal digits.
\<close>

definition hexPair :: "char \<Rightarrow> char \<Rightarrow> 8 word" where
  "hexPair c d = of_nat (16 * hexDigitVal c + hexDigitVal d)"

definition sixDigitForm :: "string \<Rightarrow> bool" where
  "sixDigitForm s = (length s = 7 \<and> hd s = CHR ''#'' \<and> list_all isHexDigit (tl s))"

text \<open>The world before a run, and the paths the two loops write to.\<close>

definition world0 :: "'t world" where
  "world0 = \<lparr>files = [], partial = [], stdout = [], log = []\<rparr>"

definition path :: "string \<Rightarrow> Element \<Rightarrow> string" where
  "path outdir e = Join_path outdir (fname e)"

definition path_embedded :: "Element_embedded \<Rightarrow> string" where
  "path_embedded el = Join_path ''elements'' (filename el)"

text \<open>
  A stand-in for the faces of a loaded font, for concrete runs: every byte advances by
  half the size, and the line height is the size.
\<close>

definition monoFace :: "int \<Rightarrow> Face" where
  "monoFace sz = \<lparr>Height = sz, MeasureString = (\<lambda>t. (sz sdiv 2) * int (length t))\<rparr>"

definition monoFaces :: "int \<Rightarrow> Faces" where
  "monoFaces tileH = \<lparr>numFont = monoFace (tileH sdiv 10), symFont = monoFace (tileH sdiv 3),
                       nameFont = monoFace (tileH sdiv 7), massFont = monoFace (tileH sdiv 10)\<rparr>"

text \<open>The spacing of the 53-bit numbers around a positive \<open>x\<close>.\<close>

definition ulp :: "rat \<Rightarrow> rat" where
  "ulp x = 2 powi (ilog2 x - 52)"

chapter \<open>Properties\<close>

section \<open>Lemmas on the string functions\<close>

























section \<open>The category normaliser\<close>







section \<open>Colours\<close>

lemmas colour_eval = hexToRGBA_def Sscanf_rgb_def scanHex2_def isHexDigit_def hexDigitVal_def
  border_def mapIndex_def parseHexColor_def hexToByte_def hexStr_def bgColor_def hexPair_def
  sixDigitForm_def

lemma isHexDigit_cases:
  assumes "isHexDigit c"
  obtains "c = CHR ''0''" | "c = CHR ''1''" | "c = CHR ''2''" | "c = CHR ''3''" | "c = CHR ''4''"
    | "c = CHR ''5''" | "c = CHR ''6''" | "c = CHR ''7''" | "c = CHR ''8''" | "c = CHR ''9''"
    | "c = CHR ''a''" | "c = CHR ''b''" | "c = CHR ''c''" | "c = CHR ''d''" | "c = CHR ''e''"
    | "c = CHR ''f''" | "c = CHR ''A''" | "c = CHR ''B''" | "c = CHR ''C''" | "c = CHR ''D''"
    | "c = CHR ''E''" | "c = CHR ''F''"
  using assms unfolding isHexDigit_def set_simps insert_iff empty_iff by (elim disjE) auto


lemma hexDigitVal_less: "hexDigitVal c < 16"
  unfolding hexDigitVal_def Let_def by (simp split: if_splits) arith

lemma hexToByte_digit: "isHexDigit c \<Longrightarrow> hexToByte c err = (of_nat (hexDigitVal c), err)"
  by (erule isHexDigit_cases) (simp_all add: hexToByte_def hexDigitVal_def)

lemma hex_range:
  fixes c :: char
  assumes "(48 \<le> (of_char c :: nat) \<and> (of_char c :: nat) \<le> 57)
     \<or> (97 \<le> (of_char c :: nat) \<and> (of_char c :: nat) \<le> 102)
     \<or> (65 \<le> (of_char c :: nat) \<and> (of_char c :: nat) \<le> 70)"
  shows "isHexDigit c"
proof -
  define n where "n = (of_char c :: nat)"
  have c: "c = char_of n" by (simp add: n_def)
  from assms have "n = 48 \<or> n = 49 \<or> n = 50 \<or> n = 51 \<or> n = 52 \<or> n = 53 \<or> n = 54 \<or> n = 55
      \<or> n = 56 \<or> n = 57 \<or> n = 97 \<or> n = 98 \<or> n = 99 \<or> n = 100 \<or> n = 101 \<or> n = 102
      \<or> n = 65 \<or> n = 66 \<or> n = 67 \<or> n = 68 \<or> n = 69 \<or> n = 70"
    unfolding n_def [symmetric] by arith
  then show ?thesis unfolding c
    by (elim disjE) (simp_all add: isHexDigit_def char_of_def bit_Suc_0_iff)
qed

lemma hexToByte_bad: "\<not> isHexDigit c \<Longrightarrow> hexToByte c err = (0, Some (InvalidHexChar c))"
  using hex_range [of c] by (auto simp: hexToByte_def Let_def)

lemma push_bit_hex:
  "push_bit 4 (of_nat (hexDigitVal c) :: 8 word) + of_nat (hexDigitVal d) = hexPair c d"
  by (simp add: hexPair_def push_bit_eq_mult)















lemma hexToByte_err: "snd (hexToByte c err) = None \<longleftrightarrow> err = None \<and> isHexDigit c"
  using hexToByte_digit [of c err] hexToByte_bad [of c err] by (cases "isHexDigit c") simp_all

lemma hexToByte_fst: "isHexDigit c \<Longrightarrow> fst (hexToByte c err) = of_nat (hexDigitVal c)"
  by (simp add: hexToByte_digit)

lemma length_seven:
  "length s = 7 \<Longrightarrow> \<exists>h d1 d2 d3 d4 d5 d6. s = [h, d1, d2, d3, d4, d5, d6]"
  by (auto simp: eval_nat_numeral length_Suc_conv)

lemma parseHexColor_seven:
  "parseHexColor [CHR ''#'', d1, d2, d3, d4, d5, d6] =
     (let e1 = snd (hexToByte d1 None); e2 = snd (hexToByte d2 e1);
          e3 = snd (hexToByte d3 e2); e4 = snd (hexToByte d4 e3);
          e5 = snd (hexToByte d5 e4); e6 = snd (hexToByte d6 e5)
      in Inr (\<lparr>R = push_bit 4 (fst (hexToByte d1 None)) + fst (hexToByte d2 e1),
               G = push_bit 4 (fst (hexToByte d3 e2)) + fst (hexToByte d4 e3),
               B = push_bit 4 (fst (hexToByte d5 e4)) + fst (hexToByte d6 e5),
               A = 255\<rparr>, e6))"
  by (simp add: parseHexColor_def Let_def split_beta)

lemma parseHexColor_ok:
  assumes "isHexDigit d1" "isHexDigit d2" "isHexDigit d3" "isHexDigit d4" "isHexDigit d5"
    "isHexDigit d6"
  shows "parseHexColor [CHR ''#'', d1, d2, d3, d4, d5, d6]
         = Inr (\<lparr>R = hexPair d1 d2, G = hexPair d3 d4, B = hexPair d5 d6, A = 255\<rparr>, None)"
  unfolding parseHexColor_seven Let_def using assms
  by (simp add: hexToByte_digit push_bit_hex)

lemma parseHexColor_sixDigitForm:
  assumes "sixDigitForm s"
  shows "parseHexColor s = Inr (\<lparr>R = hexPair (s ! 1) (s ! 2), G = hexPair (s ! 3) (s ! 4),
           B = hexPair (s ! 5) (s ! 6), A = 255\<rparr>, None)"
proof -
  from assms have "length s = 7" by (simp add: sixDigitForm_def)
  then obtain h d1 d2 d3 d4 d5 d6 where s: "s = [h, d1, d2, d3, d4, d5, d6]"
    using length_seven by blast
  with assms have "h = CHR ''#''" "isHexDigit d1" "isHexDigit d2" "isHexDigit d3" "isHexDigit d4"
      "isHexDigit d5" "isHexDigit d6"
    by (simp_all add: sixDigitForm_def)
  then show ?thesis using parseHexColor_ok [of d1 d2 d3 d4 d5 d6] by (simp add: s)
qed

lemma parseHexColor_error:
  assumes "s \<noteq> []" "\<not> sixDigitForm s"
  shows "\<exists>c e. parseHexColor s = Inr (c, Some e)"
proof (cases "hd s = CHR ''#''")
  case False
  with assms(1) show ?thesis by (cases s) (simp_all add: parseHexColor_def)
next
  case True
  note hash = this
  show ?thesis
  proof (cases "length s = 7")
    case False
    with assms(1) hash show ?thesis by (cases s) (simp_all add: parseHexColor_def)
  next
    case True
    then obtain h d1 d2 d3 d4 d5 d6 where s: "s = [h, d1, d2, d3, d4, d5, d6]"
      using length_seven by blast
    with hash have h: "h = CHR ''#''" by simp
    from assms(2) have bad: "\<not> (isHexDigit d1 \<and> isHexDigit d2 \<and> isHexDigit d3 \<and> isHexDigit d4
        \<and> isHexDigit d5 \<and> isHexDigit d6)"
      by (simp add: sixDigitForm_def s h)
    define e1 where "e1 = snd (hexToByte d1 None)"
    define e2 where "e2 = snd (hexToByte d2 e1)"
    define e3 where "e3 = snd (hexToByte d3 e2)"
    define e4 where "e4 = snd (hexToByte d4 e3)"
    define e5 where "e5 = snd (hexToByte d5 e4)"
    define e6 where "e6 = snd (hexToByte d6 e5)"
    have "e6 = None \<longleftrightarrow> isHexDigit d1 \<and> isHexDigit d2 \<and> isHexDigit d3 \<and> isHexDigit d4
        \<and> isHexDigit d5 \<and> isHexDigit d6"
      unfolding e6_def e5_def e4_def e3_def e2_def e1_def hexToByte_err by blast
    with bad obtain e where "e6 = Some e" by (cases e6) auto
    then show ?thesis
      unfolding s h parseHexColor_seven Let_def e6_def e5_def e4_def e3_def e2_def e1_def
      by blast
  qed
qed


lemma bgColor_cases:
  assumes "hexStr colorMap category \<noteq> []"
  shows "bgColor colorMap category name =
     Inr (if sixDigitForm (hexStr colorMap category)
          then (\<lparr>R = hexPair (hexStr colorMap category ! 1) (hexStr colorMap category ! 2),
                 G = hexPair (hexStr colorMap category ! 3) (hexStr colorMap category ! 4),
                 B = hexPair (hexStr colorMap category ! 5) (hexStr colorMap category ! 6),
                 A = 255\<rparr>, [])
          else (\<lparr>R = 224, G = 224, B = 224, A = 255\<rparr>,
                [ColourWarning (hexStr colorMap category) name]))"
proof (cases "sixDigitForm (hexStr colorMap category)")
  case True
  then show ?thesis by (simp add: bgColor_def parseHexColor_sixDigitForm)
next
  case False
  with assms obtain c e where "parseHexColor (hexStr colorMap category) = Inr (c, Some e)"
    using parseHexColor_error by blast
  with False show ?thesis by (simp add: bgColor_def)
qed

lemma border_cases:
  "border colours ty =
     (case colours ty of Some h \<Rightarrow> hexToRGBA h | None \<Rightarrow> \<lparr>R = 0, G = 0, B = 0, A = 255\<rparr>)"
  by (simp add: border_def mapIndex_def split: option.splits)

text \<open>
  The embedded-data program indexes the selected hex string before it looks at its
  length, so a table without the category and without \<open>unknown\<close> stops the run.
\<close>

lemma bgColor_empty_table_panics: "bgColor Map.empty category name = Inl IndexOutOfRange"
  by (simp add: bgColor_def hexStr_def mapIndex_def parseHexColor_def)






text \<open>
  C1, as the code has it. The embedded-data program selects the hex string of the
  category, else that of \<open>unknown\<close>, else the empty string; when the selected string
  is not empty, the background is its colour if it is a hash sign and six hexadecimal
  digits, and gray with a warning in the log otherwise. main.go has no such chain: its
  border is \<^verbatim>\<open>hexToRGBA\<close> of the category's entry, and opaque black without one.
\<close>

theorem colour_resolution:
  "hexStr colorMap category
     = (case colorMap category of
          Some h \<Rightarrow> h
        | None \<Rightarrow> (case colorMap ''unknown'' of Some h \<Rightarrow> h | None \<Rightarrow> []))
   \<and> (hexStr colorMap category \<noteq> [] \<longrightarrow>
        bgColor colorMap category name =
          Inr (if sixDigitForm (hexStr colorMap category)
               then (\<lparr>R = hexPair (hexStr colorMap category ! 1) (hexStr colorMap category ! 2),
                      G = hexPair (hexStr colorMap category ! 3) (hexStr colorMap category ! 4),
                      B = hexPair (hexStr colorMap category ! 5) (hexStr colorMap category ! 6),
                      A = 255\<rparr>, [])
               else (\<lparr>R = 224, G = 224, B = 224, A = 255\<rparr>,
                     [ColourWarning (hexStr colorMap category) name])))
   \<and> bgColor [''unknown'' \<mapsto> ''#e0e0e0''] ''ghost-category'' name
       = Inr (\<lparr>R = 0xe0, G = 0xe0, B = 0xe0, A = 0xff\<rparr>, [])
   \<and> bgColor [''nonmetal'' \<mapsto> ''#3498db''] ''nonmetal'' name
       = Inr (\<lparr>R = 0x34, G = 0x98, B = 0xdb, A = 0xff\<rparr>, [])
   \<and> border colours ty
       = (case colours ty of
            Some h \<Rightarrow> hexToRGBA h
          | None \<Rightarrow> \<lparr>R = 0, G = 0, B = 0, A = 255\<rparr>)"
proof -
  have chain: "hexStr colorMap category
     = (case colorMap category of
          Some h \<Rightarrow> h
        | None \<Rightarrow> (case colorMap ''unknown'' of Some h \<Rightarrow> h | None \<Rightarrow> []))"
    by (simp add: hexStr_def mapIndex_def split: option.splits)
  have bg: "hexStr colorMap category \<noteq> [] \<longrightarrow>
        bgColor colorMap category name =
          Inr (if sixDigitForm (hexStr colorMap category)
               then (\<lparr>R = hexPair (hexStr colorMap category ! 1) (hexStr colorMap category ! 2),
                      G = hexPair (hexStr colorMap category ! 3) (hexStr colorMap category ! 4),
                      B = hexPair (hexStr colorMap category ! 5) (hexStr colorMap category ! 6),
                      A = 255\<rparr>, [])
               else (\<lparr>R = 224, G = 224, B = 224, A = 255\<rparr>,
                     [ColourWarning (hexStr colorMap category) name]))"
    using bgColor_cases [of colorMap category name] by (intro impI)
  have ex1: "bgColor [''unknown'' \<mapsto> ''#e0e0e0''] ''ghost-category'' name
       = Inr (\<lparr>R = 0xe0, G = 0xe0, B = 0xe0, A = 0xff\<rparr>, [])"
    by (simp add: colour_eval)
  have ex2: "bgColor [''nonmetal'' \<mapsto> ''#3498db''] ''nonmetal'' name
       = Inr (\<lparr>R = 0x34, G = 0x98, B = 0xdb, A = 0xff\<rparr>, [])"
    by (simp add: colour_eval)
  show ?thesis
    by (intro conjI) (fact chain, fact bg, fact ex1, fact ex2, fact border_cases)
qed

theorem colour_resolution_witness:
  "bgColor [''noble gas'' \<mapsto> ''#9b59b6'', ''unknown'' \<mapsto> ''#e0e0e0''] ''noble gas'' ''Neon''
     = Inr (\<lparr>R = 0x9b, G = 0x59, B = 0xb6, A = 0xff\<rparr>, [])
   \<and> bgColor [''noble gas'' \<mapsto> ''purple''] ''noble gas'' ''Neon''
     = Inr (\<lparr>R = 224, G = 224, B = 224, A = 255\<rparr>, [ColourWarning ''purple'' ''Neon''])"
proof -
  have s1: "hexStr [''noble gas'' \<mapsto> ''#9b59b6'', ''unknown'' \<mapsto> ''#e0e0e0''] ''noble gas''
      = ''#9b59b6''"
    by (simp add: hexStr_def mapIndex_def)
  have f1: "sixDigitForm ''#9b59b6''" by (simp add: sixDigitForm_def isHexDigit_def)
  have s2: "hexStr [''noble gas'' \<mapsto> ''purple''] ''noble gas'' = ''purple''"
    by (simp add: hexStr_def mapIndex_def)
  have f2: "\<not> sixDigitForm ''purple''" by (simp add: sixDigitForm_def)
  from colour_resolution [of "[''noble gas'' \<mapsto> ''#9b59b6'', ''unknown'' \<mapsto> ''#e0e0e0'']"
      "''noble gas''" "''Neon''"] s1 f1
  have a: "bgColor [''noble gas'' \<mapsto> ''#9b59b6'', ''unknown'' \<mapsto> ''#e0e0e0''] ''noble gas'' ''Neon''
     = Inr (\<lparr>R = 0x9b, G = 0x59, B = 0xb6, A = 0xff\<rparr>, [])"
    by (simp add: hexPair_def hexDigitVal_def)
  from colour_resolution [of "[''noble gas'' \<mapsto> ''purple'']" "''noble gas''" "''Neon''"] s2 f2
  have b: "bgColor [''noble gas'' \<mapsto> ''purple''] ''noble gas'' ''Neon''
     = Inr (\<lparr>R = 224, G = 224, B = 224, A = 255\<rparr>, [ColourWarning ''purple'' ''Neon''])"
    by simp
  from a b show ?thesis by (intro conjI)
qed

theorem colour_resolution_counterexample:
  "border [''unknown'' \<mapsto> ''#e0e0e0''] ''ghost-category'' = \<lparr>R = 0, G = 0, B = 0, A = 255\<rparr>
   \<and> border [''unknown'' \<mapsto> ''#e0e0e0''] ''ghost-category''
       \<noteq> \<lparr>R = 0xe0, G = 0xe0, B = 0xe0, A = 0xff\<rparr>"
  by (simp add: border_cases)

section \<open>The card layout\<close>

lemma sdiv_two: "(k :: int) sdiv 2 = (if 0 \<le> k then k div 2 else - ((- k) div 2))"
  by (simp add: signed_divide_int_def sgn_if)

text \<open>
  C2. For every canvas size and every symbol, with \<open>mw\<close> the measured width of the
  symbol: the x origin is within one pixel (indeed within half a pixel) of
  \<open>(W - mw) / 2\<close>; the y origin is \<open>H / 2\<close> in Go's integer division; when
  \<open>mw \<le> W\<close> the symbol stays on the canvas, \<open>0 \<le> x\<close> and \<open>x + mw \<le> W\<close>; and a
  text of width 0 starts at the horizontal centre \<open>W / 2\<close>.
\<close>

theorem symbol_centred:
  fixes fs :: Faces and w tileH :: int and s :: string
  defines "x \<equiv> fst (symOrigin fs w tileH s)"
    and "y \<equiv> snd (symOrigin fs w tileH s)"
    and "mw \<equiv> MeasureString (symFont fs) s"
  shows "\<bar>real_of_int x - (real_of_int w - real_of_int mw) / 2\<bar> \<le> 1
    \<and> \<bar>real_of_int x - (real_of_int w - real_of_int mw) / 2\<bar> \<le> 1 / 2
    \<and> y = tileH sdiv 2
    \<and> (mw \<le> w \<longrightarrow> 0 \<le> x \<and> x + mw \<le> w)
    \<and> (mw = 0 \<longrightarrow> x = w sdiv 2)"
proof -
  have x: "x = (w - mw) sdiv 2" and y: "y = tileH sdiv 2"
    by (simp_all add: x_def y_def mw_def symOrigin_def Let_def)
  define d where "d = w - mw"
  have half: "\<bar>2 * (d sdiv 2) - d\<bar> \<le> 1" unfolding sdiv_two by (simp split: if_splits) arith
  have "\<bar>real_of_int x - (real_of_int w - real_of_int mw) / 2\<bar>
      = \<bar>real_of_int (2 * (d sdiv 2) - d)\<bar> / 2"
    by (simp add: x d_def field_simps)
  also have "\<dots> \<le> 1 / 2" using half by (simp add: divide_right_mono)
  finally have near: "\<bar>real_of_int x - (real_of_int w - real_of_int mw) / 2\<bar> \<le> 1 / 2" .
  have inside: "mw \<le> w \<longrightarrow> 0 \<le> x \<and> x + mw \<le> w"
    unfolding x sdiv_two by (simp split: if_splits) arith
  have centre: "mw = 0 \<longrightarrow> x = w sdiv 2" by (simp add: x)
  from near y inside centre show ?thesis by simp
qed

theorem symbol_centred_witness:
  "fst (symOrigin (monoFaces 600) 800 600 ''He'') + 200 \<le> (800 :: int)
   \<and> fst (symOrigin (monoFaces 600) 800 600 []) = 400"
proof -
  have m1: "MeasureString (symFont (monoFaces 600)) ''He'' = 200"
    by (simp add: monoFaces_def monoFace_def sdiv_two signed_divide_int_def)
  have m2: "MeasureString (symFont (monoFaces 600)) [] = 0"
    by (simp add: monoFaces_def monoFace_def)
  have h1: "MeasureString (symFont (monoFaces 600)) ''He'' \<le> 800" unfolding m1 by simp
  from symbol_centred [of "monoFaces 600" 800 600 "''He''"] h1
  have a: "fst (symOrigin (monoFaces 600) 800 600 ''He'')
      + MeasureString (symFont (monoFaces 600)) ''He'' \<le> 800"
    by blast
  from symbol_centred [of "monoFaces 600" 800 600 "[]"] m2
  have b: "fst (symOrigin (monoFaces 600) 800 600 []) = 800 sdiv 2" by blast
  have c: "(800 :: int) sdiv 2 = 400" by (simp add: sdiv_two)
  from a b c m1 show ?thesis by simp
qed

section \<open>The batch loops\<close>

lemma step_eq:
  "step env outdir draw e w =
     w\<lparr>files := files w @ (if create_ok env (path outdir e) \<and> encode_ok env (path outdir e)
                           then [(path outdir e, draw e)] else []),
       partial := partial w @ (if create_ok env (path outdir e) \<and> \<not> encode_ok env (path outdir e)
                           then [path outdir e] else []),
       stdout := stdout w @ [''Written: '' @ fname e]\<rparr>"
  by (simp add: step_def path_def Let_def)

lemma run_eq:
  "run env outdir draw es w =
     w\<lparr>files := files w @ map (\<lambda>e. (path outdir e, draw e))
                  (filter (\<lambda>e. create_ok env (path outdir e) \<and> encode_ok env (path outdir e)) es),
       partial := partial w @ map (path outdir)
                  (filter (\<lambda>e. create_ok env (path outdir e) \<and> \<not> encode_ok env (path outdir e)) es),
       stdout := stdout w @ map (\<lambda>e. ''Written: '' @ fname e) es\<rparr>"
proof (induction es arbitrary: w)
  case Nil
  show ?case by simp
next
  case (Cons e es)
  show ?case unfolding run.simps Cons.IH step_eq by simp
qed

lemma step_embedded_eq:
  assumes "sixDigitForm (hexStr colorMap (Category el))"
  shows "\<exists>c. step_embedded env colorMap el w =
     Inr (w\<lparr>files := files w @ (if create_ok env (path_embedded el) \<and> encode_ok env (path_embedded el)
                           then [(path_embedded el, c)] else []),
       partial := partial w @ (if create_ok env (path_embedded el) \<and> \<not> encode_ok env (path_embedded el)
                           then [path_embedded el] else []),
       stdout := stdout w @ (if create_ok env (path_embedded el)
                           then [''Created '' @ path_embedded el] else []),
       log := log w @ (if \<not> create_ok env (path_embedded el) then [CreateFailed (Name_embedded el)]
                       else if \<not> encode_ok env (path_embedded el)
                       then [EncodeFailed (Name_embedded el)] else [])\<rparr>)"
proof -
  from assms have ne: "hexStr colorMap (Category el) \<noteq> []"
    by (auto simp: sixDigitForm_def)
  obtain c where c: "bgColor colorMap (Category el) (Name_embedded el) = Inr (c, [])"
    using bgColor_cases [OF ne, of "Name_embedded el"] assms by simp
  show ?thesis
    by (rule exI [of _ c]) (simp add: step_embedded_def c path_embedded_def Let_def)
qed

lemma run_embedded_eq:
  assumes "\<forall>el\<in>set els. sixDigitForm (hexStr colorMap (Category el))"
  shows "\<exists>w'. run_embedded env colorMap els w = Inr w'
     \<and> map fst (files w') = map fst (files w) @ map path_embedded
          (filter (\<lambda>el. create_ok env (path_embedded el) \<and> encode_ok env (path_embedded el)) els)
     \<and> log w' = log w @ concat (map (\<lambda>el.
          if \<not> create_ok env (path_embedded el) then [CreateFailed (Name_embedded el)]
          else if \<not> encode_ok env (path_embedded el) then [EncodeFailed (Name_embedded el)]
          else []) els)"
  using assms
proof (induction els arbitrary: w)
  case Nil
  show ?case by simp
next
  case (Cons el els)
  from Cons.prems have "sixDigitForm (hexStr colorMap (Category el))" by simp
  then obtain c where st: "step_embedded env colorMap el w =
     Inr (w\<lparr>files := files w @ (if create_ok env (path_embedded el) \<and> encode_ok env (path_embedded el)
                           then [(path_embedded el, c)] else []),
       partial := partial w @ (if create_ok env (path_embedded el) \<and> \<not> encode_ok env (path_embedded el)
                           then [path_embedded el] else []),
       stdout := stdout w @ (if create_ok env (path_embedded el)
                           then [''Created '' @ path_embedded el] else []),
       log := log w @ (if \<not> create_ok env (path_embedded el) then [CreateFailed (Name_embedded el)]
                       else if \<not> encode_ok env (path_embedded el)
                       then [EncodeFailed (Name_embedded el)] else [])\<rparr>)" (is "_ = Inr ?w1")
    using step_embedded_eq by blast
  from Cons.prems have rest: "\<forall>el\<in>set els. sixDigitForm (hexStr colorMap (Category el))" by simp
  from Cons.IH [OF rest, of ?w1] obtain w' where w': "run_embedded env colorMap els ?w1 = Inr w'"
     "map fst (files w') = map fst (files ?w1) @ map path_embedded
          (filter (\<lambda>el. create_ok env (path_embedded el) \<and> encode_ok env (path_embedded el)) els)"
     "log w' = log ?w1 @ concat (map (\<lambda>el.
          if \<not> create_ok env (path_embedded el) then [CreateFailed (Name_embedded el)]
          else if \<not> encode_ok env (path_embedded el) then [EncodeFailed (Name_embedded el)]
          else []) els)"
    by blast
  show ?case
    by (rule exI [of _ w']) (simp add: st w')
qed

lemma filter_all: "\<forall>x\<in>set xs. P x \<Longrightarrow> filter P xs = xs"
  by (induction xs) simp_all

lemma filter_one_out:
  "\<forall>x\<in>set (xs @ ys). P x \<Longrightarrow> \<not> P y \<Longrightarrow> filter P (xs @ y # ys) = xs @ ys"
  by (simp add: filter_all)

lemma concat_all_nil: "\<forall>x\<in>set xs. f x = [] \<Longrightarrow> concat (map f xs) = []"
  by (induction xs) simp_all

lemma replicate_numeral: "replicate (numeral k) x = x # replicate (pred_numeral k) x"
  by (simp add: numeral_eq_Suc)

lemmas batch_eval = replicate_numeral path_def path_embedded_def Join_path_def fname_def
  filename_def fmt_03d_def padZero_def digitsOf.simps char_of_def bit_Suc_0_iff

text \<open>
  C8, as the code has it. In both programs a failed creation or encoding of one file
  does not stop the batch. In the embedded-data program, with a colour table that
  resolves every category: when no call fails, the run ends normally with one file per
  record, under pairwise distinct names when the records' names are, and an empty log;
  when one record's creation fails, or its encoding, the run ends normally with the
  other records' files and that one failure in the log. The loop of main.go leaves the
  same files, but it drops the errors: its log stays empty whatever fails.
\<close>

theorem batch_continues:
  "((\<forall>el\<in>set els. sixDigitForm (hexStr colorMap (Category el)))
      \<and> distinct (map path_embedded els)
      \<and> (\<forall>el\<in>set els. create_ok env (path_embedded el) \<and> encode_ok env (path_embedded el))
     \<longrightarrow> (\<exists>w'. run_embedded env colorMap els world0 = Inr w'
           \<and> map fst (files w') = map path_embedded els
           \<and> distinct (map fst (files w'))
           \<and> length (files w') = length els
           \<and> log w' = []))
   \<and> ((\<forall>el\<in>set (xs @ bad # ys). sixDigitForm (hexStr colorMap (Category el)))
      \<and> (\<forall>el\<in>set (xs @ ys). create_ok env (path_embedded el) \<and> encode_ok env (path_embedded el))
      \<and> \<not> create_ok env (path_embedded bad)
     \<longrightarrow> (\<exists>w'. run_embedded env colorMap (xs @ bad # ys) world0 = Inr w'
           \<and> map fst (files w') = map path_embedded (xs @ ys)
           \<and> length (files w') = length (xs @ bad # ys) - 1
           \<and> log w' = [CreateFailed (Name_embedded bad)]))
   \<and> ((\<forall>el\<in>set (xs' @ bad' # ys'). sixDigitForm (hexStr colorMap (Category el)))
      \<and> (\<forall>el\<in>set (xs' @ ys'). create_ok env (path_embedded el) \<and> encode_ok env (path_embedded el))
      \<and> create_ok env (path_embedded bad') \<and> \<not> encode_ok env (path_embedded bad')
     \<longrightarrow> (\<exists>w'. run_embedded env colorMap (xs' @ bad' # ys') world0 = Inr w'
           \<and> map fst (files w') = map path_embedded (xs' @ ys')
           \<and> length (files w') = length (xs' @ bad' # ys') - 1
           \<and> log w' = [EncodeFailed (Name_embedded bad')]))
   \<and> ((\<forall>e\<in>set es. create_ok env (path outdir e) \<and> encode_ok env (path outdir e))
     \<longrightarrow> map fst (files (run env outdir draw es world0)) = map (path outdir) es
         \<and> length (files (run env outdir draw es world0)) = length es)
   \<and> ((\<forall>e\<in>set (as @ bs). create_ok env (path outdir e) \<and> encode_ok env (path outdir e))
      \<and> (\<not> create_ok env (path outdir b) \<or> \<not> encode_ok env (path outdir b))
     \<longrightarrow> map fst (files (run env outdir draw (as @ b # bs) world0)) = map (path outdir) (as @ bs)
         \<and> length (files (run env outdir draw (as @ b # bs) world0)) = length (as @ b # bs) - 1)
   \<and> log (run env outdir draw es' world0) = []"
proof -
  let ?ok = "\<lambda>el. create_ok env (path_embedded el) \<and> encode_ok env (path_embedded el)"
  let ?ev = "\<lambda>el. if \<not> create_ok env (path_embedded el) then [CreateFailed (Name_embedded el)]
          else if \<not> encode_ok env (path_embedded el) then [EncodeFailed (Name_embedded el)]
          else []"
  have p1: "(\<forall>el\<in>set els. sixDigitForm (hexStr colorMap (Category el)))
      \<and> distinct (map path_embedded els)
      \<and> (\<forall>el\<in>set els. create_ok env (path_embedded el) \<and> encode_ok env (path_embedded el))
     \<longrightarrow> (\<exists>w'. run_embedded env colorMap els world0 = Inr w'
           \<and> map fst (files w') = map path_embedded els
           \<and> distinct (map fst (files w'))
           \<and> length (files w') = length els
           \<and> log w' = [])"
  proof (intro impI, elim conjE)
    assume a: "\<forall>el\<in>set els. sixDigitForm (hexStr colorMap (Category el))"
      "distinct (map path_embedded els)" "\<forall>el\<in>set els. ?ok el"
    from run_embedded_eq [OF a(1), of env world0] obtain w' where
      w': "run_embedded env colorMap els world0 = Inr w'"
        "map fst (files w') = map fst (files (world0 :: rgba world)) @ map path_embedded (filter ?ok els)"
        "log w' = log (world0 :: rgba world) @ concat (map ?ev els)"
      by blast
    have f: "filter ?ok els = els" using a(3) by (rule filter_all)
    have "\<forall>el\<in>set els. ?ev el = []" using a(3) by simp
    then have l: "concat (map ?ev els) = []" by (rule concat_all_nil)
    have m: "map fst (files w') = map path_embedded els"
      using w'(2) unfolding f by (simp add: world0_def)
    then have "length (map fst (files w')) = length els" by simp
    then have n: "length (files w') = length els" by simp
    from w'(1) m a(2) n w'(3) l show "\<exists>w'. run_embedded env colorMap els world0 = Inr w'
           \<and> map fst (files w') = map path_embedded els
           \<and> distinct (map fst (files w'))
           \<and> length (files w') = length els
           \<and> log w' = []"
      by (intro exI [of _ w']) (simp add: world0_def)
  qed
  have one: "\<exists>w'. run_embedded env colorMap (us @ u # vs) world0 = Inr w'
           \<and> map fst (files w') = map path_embedded (us @ vs)
           \<and> length (files w') = length (us @ u # vs) - 1
           \<and> log w' = ?ev u"
    if a: "\<forall>el\<in>set (us @ u # vs). sixDigitForm (hexStr colorMap (Category el))"
      "\<forall>el\<in>set (us @ vs). ?ok el" "\<not> ?ok u" for us u vs
  proof -
    from run_embedded_eq [OF a(1), of env world0] obtain w' where
      w': "run_embedded env colorMap (us @ u # vs) world0 = Inr w'"
        "map fst (files w') = map fst (files (world0 :: rgba world))
           @ map path_embedded (filter ?ok (us @ u # vs))"
        "log w' = log (world0 :: rgba world) @ concat (map ?ev (us @ u # vs))"
      by blast
    have f: "filter ?ok (us @ u # vs) = us @ vs" using a(2,3) by (rule filter_one_out)
    have "\<forall>el\<in>set us. ?ev el = []" using a(2) by simp
    then have c1: "concat (map ?ev us) = []" by (rule concat_all_nil)
    have "\<forall>el\<in>set vs. ?ev el = []" using a(2) by simp
    then have c2: "concat (map ?ev vs) = []" by (rule concat_all_nil)
    have "concat (map ?ev (us @ u # vs)) = concat (map ?ev us) @ ?ev u @ concat (map ?ev vs)"
      by simp
    then have l: "concat (map ?ev (us @ u # vs)) = ?ev u" by (simp only: c1 c2 append_Nil append_Nil2)
    have m: "map fst (files w') = map path_embedded (us @ vs)"
      using w'(2) unfolding f by (simp add: world0_def)
    then have "length (map fst (files w')) = length (us @ vs)" by simp
    then have n: "length (files w') = length (us @ u # vs) - 1" by simp
    from w'(1) m n w'(3) l show ?thesis
      by (intro exI [of _ w']) (simp add: world0_def)
  qed
  have p2: "(\<forall>el\<in>set (xs @ bad # ys). sixDigitForm (hexStr colorMap (Category el)))
      \<and> (\<forall>el\<in>set (xs @ ys). create_ok env (path_embedded el) \<and> encode_ok env (path_embedded el))
      \<and> \<not> create_ok env (path_embedded bad)
     \<longrightarrow> (\<exists>w'. run_embedded env colorMap (xs @ bad # ys) world0 = Inr w'
           \<and> map fst (files w') = map path_embedded (xs @ ys)
           \<and> length (files w') = length (xs @ bad # ys) - 1
           \<and> log w' = [CreateFailed (Name_embedded bad)])"
  proof (intro impI, elim conjE)
    assume a: "\<forall>el\<in>set (xs @ bad # ys). sixDigitForm (hexStr colorMap (Category el))"
      "\<forall>el\<in>set (xs @ ys). ?ok el" "\<not> create_ok env (path_embedded bad)"
    from a(3) have "\<not> ?ok bad" by simp
    from one [OF a(1,2) this] a(3)
    show "\<exists>w'. run_embedded env colorMap (xs @ bad # ys) world0 = Inr w'
           \<and> map fst (files w') = map path_embedded (xs @ ys)
           \<and> length (files w') = length (xs @ bad # ys) - 1
           \<and> log w' = [CreateFailed (Name_embedded bad)]"
      by simp
  qed
  have p3: "(\<forall>el\<in>set (xs' @ bad' # ys'). sixDigitForm (hexStr colorMap (Category el)))
      \<and> (\<forall>el\<in>set (xs' @ ys'). create_ok env (path_embedded el) \<and> encode_ok env (path_embedded el))
      \<and> create_ok env (path_embedded bad') \<and> \<not> encode_ok env (path_embedded bad')
     \<longrightarrow> (\<exists>w'. run_embedded env colorMap (xs' @ bad' # ys') world0 = Inr w'
           \<and> map fst (files w') = map path_embedded (xs' @ ys')
           \<and> length (files w') = length (xs' @ bad' # ys') - 1
           \<and> log w' = [EncodeFailed (Name_embedded bad')])"
  proof (intro impI, elim conjE)
    assume a: "\<forall>el\<in>set (xs' @ bad' # ys'). sixDigitForm (hexStr colorMap (Category el))"
      "\<forall>el\<in>set (xs' @ ys'). ?ok el" "create_ok env (path_embedded bad')"
      "\<not> encode_ok env (path_embedded bad')"
    from a(4) have "\<not> ?ok bad'" by simp
    from one [OF a(1,2) this] a(3,4)
    show "\<exists>w'. run_embedded env colorMap (xs' @ bad' # ys') world0 = Inr w'
           \<and> map fst (files w') = map path_embedded (xs' @ ys')
           \<and> length (files w') = length (xs' @ bad' # ys') - 1
           \<and> log w' = [EncodeFailed (Name_embedded bad')]"
      by simp
  qed
  let ?okm = "\<lambda>e. create_ok env (path outdir e) \<and> encode_ok env (path outdir e)"
  have p4: "(\<forall>e\<in>set es. create_ok env (path outdir e) \<and> encode_ok env (path outdir e))
     \<longrightarrow> map fst (files (run env outdir draw es world0)) = map (path outdir) es
         \<and> length (files (run env outdir draw es world0)) = length es"
  proof
    assume "\<forall>e\<in>set es. ?okm e"
    then have fl: "filter ?okm es = es" by (rule filter_all)
    show "map fst (files (run env outdir draw es world0)) = map (path outdir) es
         \<and> length (files (run env outdir draw es world0)) = length es"
      unfolding run_eq fl by (simp add: world0_def comp_def)
  qed
  have p5: "(\<forall>e\<in>set (as @ bs). create_ok env (path outdir e) \<and> encode_ok env (path outdir e))
      \<and> (\<not> create_ok env (path outdir b) \<or> \<not> encode_ok env (path outdir b))
     \<longrightarrow> map fst (files (run env outdir draw (as @ b # bs) world0)) = map (path outdir) (as @ bs)
         \<and> length (files (run env outdir draw (as @ b # bs) world0)) = length (as @ b # bs) - 1"
  proof (intro impI, elim conjE)
    assume a: "\<forall>e\<in>set (as @ bs). ?okm e"
      "\<not> create_ok env (path outdir b) \<or> \<not> encode_ok env (path outdir b)"
    from a(2) have "\<not> ?okm b" by blast
    with a(1) have fl: "filter ?okm (as @ b # bs) = as @ bs" by (rule filter_one_out)
    show "map fst (files (run env outdir draw (as @ b # bs) world0)) = map (path outdir) (as @ bs)
         \<and> length (files (run env outdir draw (as @ b # bs) world0)) = length (as @ b # bs) - 1"
      unfolding run_eq fl by (simp add: world0_def comp_def)
  qed
  have p6: "log (run env outdir draw es' world0) = []"
    by (simp add: run_eq world0_def)
  show ?thesis
    by (intro conjI) (fact p1, fact p2, fact p3, fact p4, fact p5, fact p6)
qed

theorem batch_continues_witness:
  "let env = \<lparr>create_ok = (\<lambda>p. p \<noteq> ''elements/002-Helium.png'' \<and> p \<noteq> ''elements/002_He.png''),
              encode_ok = (\<lambda>p. p \<noteq> ''elements/004-Beryllium.png'')\<rparr>;
       cm = [''diatomic nonmetal'' \<mapsto> ''#3498db'', ''noble gas'' \<mapsto> ''#9b59b6'',
             ''alkali metal'' \<mapsto> ''#e74c3c'', ''alkaline earth metal'' \<mapsto> ''#e67e22''];
       h = \<lparr>Name_embedded = ''Hydrogen'', Symbol_embedded = ''H'', AtomicNumber = 1,
            AtomicMass = 1, Category = ''diatomic nonmetal''\<rparr>;
       he = \<lparr>Name_embedded = ''Helium'', Symbol_embedded = ''He'', AtomicNumber = 2,
            AtomicMass = 4, Category = ''noble gas''\<rparr>;
       li = \<lparr>Name_embedded = ''Lithium'', Symbol_embedded = ''Li'', AtomicNumber = 3,
            AtomicMass = 7, Category = ''alkali metal''\<rparr>;
       be = \<lparr>Name_embedded = ''Beryllium'', Symbol_embedded = ''Be'', AtomicNumber = 4,
            AtomicMass = 9, Category = ''alkaline earth metal''\<rparr>;
       e1 = \<lparr>Number = 1, Symbol = ''H'', Name = ''Hydrogen'', Mass = 1, Type = ''nonmetal''\<rparr>;
       e2 = \<lparr>Number = 2, Symbol = ''He'', Name = ''Helium'', Mass = 4, Type = ''noble gas''\<rparr>;
       e3 = \<lparr>Number = 3, Symbol = ''Li'', Name = ''Lithium'', Mass = 7, Type = ''alkali metal''\<rparr>;
       draw = drawTile cm (monoFaces 600) 782 600
   in (\<exists>w'. run_embedded env cm [h, li] world0 = Inr w'
         \<and> map fst (files w') = [''elements/001-Hydrogen.png'', ''elements/003-Lithium.png'']
         \<and> log w' = [])
    \<and> (\<exists>w'. run_embedded env cm [h, he, li] world0 = Inr w'
         \<and> map fst (files w') = [''elements/001-Hydrogen.png'', ''elements/003-Lithium.png'']
         \<and> log w' = [CreateFailed ''Helium''])
    \<and> (\<exists>w'. run_embedded env cm [h, be, li] world0 = Inr w'
         \<and> map fst (files w') = [''elements/001-Hydrogen.png'', ''elements/003-Lithium.png'']
         \<and> log w' = [EncodeFailed ''Beryllium''])
    \<and> map fst (files (run env ''elements'' draw [e1, e3] world0))
         = [''elements/001_H.png'', ''elements/003_Li.png'']
    \<and> map fst (files (run env ''elements'' draw [e1, e2, e3] world0))
         = [''elements/001_H.png'', ''elements/003_Li.png'']"
proof -
  let ?env = "\<lparr>create_ok = (\<lambda>p. p \<noteq> ''elements/002-Helium.png'' \<and> p \<noteq> ''elements/002_He.png''),
              encode_ok = (\<lambda>p. p \<noteq> ''elements/004-Beryllium.png'')\<rparr>"
  let ?cm = "[''diatomic nonmetal'' \<mapsto> ''#3498db'', ''noble gas'' \<mapsto> ''#9b59b6'',
             ''alkali metal'' \<mapsto> ''#e74c3c'', ''alkaline earth metal'' \<mapsto> ''#e67e22'']"
  let ?h = "\<lparr>Name_embedded = ''Hydrogen'', Symbol_embedded = ''H'', AtomicNumber = 1,
            AtomicMass = 1, Category = ''diatomic nonmetal''\<rparr>"
  let ?he = "\<lparr>Name_embedded = ''Helium'', Symbol_embedded = ''He'', AtomicNumber = 2,
            AtomicMass = 4, Category = ''noble gas''\<rparr>"
  let ?li = "\<lparr>Name_embedded = ''Lithium'', Symbol_embedded = ''Li'', AtomicNumber = 3,
            AtomicMass = 7, Category = ''alkali metal''\<rparr>"
  let ?be = "\<lparr>Name_embedded = ''Beryllium'', Symbol_embedded = ''Be'', AtomicNumber = 4,
            AtomicMass = 9, Category = ''alkaline earth metal''\<rparr>"
  let ?e1 = "\<lparr>Number = 1, Symbol = ''H'', Name = ''Hydrogen'', Mass = 1, Type = ''nonmetal''\<rparr>"
  let ?e2 = "\<lparr>Number = 2, Symbol = ''He'', Name = ''Helium'', Mass = 4, Type = ''noble gas''\<rparr>"
  let ?e3 = "\<lparr>Number = 3, Symbol = ''Li'', Name = ''Lithium'', Mass = 7, Type = ''alkali metal''\<rparr>"
  let ?draw = "drawTile ?cm (monoFaces 600) 782 600"
  have ph: "path_embedded ?h = ''elements/001-Hydrogen.png''"
    and phe: "path_embedded ?he = ''elements/002-Helium.png''"
    and pli: "path_embedded ?li = ''elements/003-Lithium.png''"
    and pbe: "path_embedded ?be = ''elements/004-Beryllium.png''"
    and p1: "path ''elements'' ?e1 = ''elements/001_H.png''"
    and p2: "path ''elements'' ?e2 = ''elements/002_He.png''"
    and p3: "path ''elements'' ?e3 = ''elements/003_Li.png''"
    by (simp_all add: batch_eval)
  have six: "sixDigitForm (hexStr ?cm (Category ?h))" "sixDigitForm (hexStr ?cm (Category ?he))"
      "sixDigitForm (hexStr ?cm (Category ?li))" "sixDigitForm (hexStr ?cm (Category ?be))"
    by (simp_all add: sixDigitForm_def hexStr_def mapIndex_def isHexDigit_def)
  note t = batch_continues [of "[?h, ?li]" ?cm ?env "[?h]" ?he "[?li]" "[?h]" ?be "[?li]"
      "[?e1, ?e3]" "''elements''" ?draw "[?e1]" "[?e3]" ?e2 "[]"]
  have h1: "(\<forall>el\<in>set [?h, ?li]. sixDigitForm (hexStr ?cm (Category el)))
      \<and> distinct (map path_embedded [?h, ?li])
      \<and> (\<forall>el\<in>set [?h, ?li]. create_ok ?env (path_embedded el) \<and> encode_ok ?env (path_embedded el))"
    using six by (simp add: ph pli)
  from t [THEN conjunct1, THEN mp, OF h1] obtain wa where
    "run_embedded ?env ?cm [?h, ?li] world0 = Inr wa \<and> map fst (files wa) = map path_embedded [?h, ?li]
       \<and> distinct (map fst (files wa)) \<and> length (files wa) = length [?h, ?li] \<and> log wa = []" ..
  then have "run_embedded ?env ?cm [?h, ?li] world0 = Inr wa
         \<and> map fst (files wa) = [''elements/001-Hydrogen.png'', ''elements/003-Lithium.png'']
         \<and> log wa = []"
    by (simp only: append_Cons append_Nil list.map ph pli Element_embedded.select_convs simp_thms)
  then have a: "\<exists>w'. run_embedded ?env ?cm [?h, ?li] world0 = Inr w'
         \<and> map fst (files w') = [''elements/001-Hydrogen.png'', ''elements/003-Lithium.png'']
         \<and> log w' = []" by (rule exI [of _ wa])
  have h2: "(\<forall>el\<in>set ([?h] @ ?he # [?li]). sixDigitForm (hexStr ?cm (Category el)))
      \<and> (\<forall>el\<in>set ([?h] @ [?li]). create_ok ?env (path_embedded el) \<and> encode_ok ?env (path_embedded el))
      \<and> \<not> create_ok ?env (path_embedded ?he)"
    using six by (simp add: ph phe pli)
  from t [THEN conjunct2, THEN conjunct1, THEN mp, OF h2] obtain wb where
    "run_embedded ?env ?cm ([?h] @ ?he # [?li]) world0 = Inr wb \<and> map fst (files wb) = map path_embedded ([?h] @ [?li])
       \<and> length (files wb) = length ([?h] @ ?he # [?li]) - 1 \<and> log wb = [CreateFailed (Name_embedded ?he)]" ..
  then have "run_embedded ?env ?cm [?h, ?he, ?li] world0 = Inr wb
         \<and> map fst (files wb) = [''elements/001-Hydrogen.png'', ''elements/003-Lithium.png'']
         \<and> log wb = [CreateFailed ''Helium'']"
    by (simp only: append_Cons append_Nil list.map ph pli Element_embedded.select_convs simp_thms)
  then have b: "\<exists>w'. run_embedded ?env ?cm [?h, ?he, ?li] world0 = Inr w'
         \<and> map fst (files w') = [''elements/001-Hydrogen.png'', ''elements/003-Lithium.png'']
         \<and> log w' = [CreateFailed ''Helium'']" by (rule exI [of _ wb])
  have h3: "(\<forall>el\<in>set ([?h] @ ?be # [?li]). sixDigitForm (hexStr ?cm (Category el)))
      \<and> (\<forall>el\<in>set ([?h] @ [?li]). create_ok ?env (path_embedded el) \<and> encode_ok ?env (path_embedded el))
      \<and> create_ok ?env (path_embedded ?be) \<and> \<not> encode_ok ?env (path_embedded ?be)"
    using six by (simp add: ph pbe pli)
  from t [THEN conjunct2, THEN conjunct2, THEN conjunct1, THEN mp, OF h3] obtain wc where
    "run_embedded ?env ?cm ([?h] @ ?be # [?li]) world0 = Inr wc \<and> map fst (files wc) = map path_embedded ([?h] @ [?li])
       \<and> length (files wc) = length ([?h] @ ?be # [?li]) - 1 \<and> log wc = [EncodeFailed (Name_embedded ?be)]" ..
  then have "run_embedded ?env ?cm [?h, ?be, ?li] world0 = Inr wc
         \<and> map fst (files wc) = [''elements/001-Hydrogen.png'', ''elements/003-Lithium.png'']
         \<and> log wc = [EncodeFailed ''Beryllium'']"
    by (simp only: append_Cons append_Nil list.map ph pli Element_embedded.select_convs simp_thms)
  then have c: "\<exists>w'. run_embedded ?env ?cm [?h, ?be, ?li] world0 = Inr w'
         \<and> map fst (files w') = [''elements/001-Hydrogen.png'', ''elements/003-Lithium.png'']
         \<and> log w' = [EncodeFailed ''Beryllium'']" by (rule exI [of _ wc])
  have h4: "\<forall>e\<in>set [?e1, ?e3]. create_ok ?env (path ''elements'' e) \<and> encode_ok ?env (path ''elements'' e)"
    by (simp add: p1 p3)
  have d: "map fst (files (run ?env ''elements'' ?draw [?e1, ?e3] world0))
         = [''elements/001_H.png'', ''elements/003_Li.png'']"
    using t [THEN conjunct2, THEN conjunct2, THEN conjunct2, THEN conjunct1, THEN mp, OF h4]
    by (simp add: p1 p3 del: run.simps)
  have h5: "(\<forall>e\<in>set ([?e1] @ [?e3]). create_ok ?env (path ''elements'' e)
        \<and> encode_ok ?env (path ''elements'' e))
      \<and> (\<not> create_ok ?env (path ''elements'' ?e2) \<or> \<not> encode_ok ?env (path ''elements'' ?e2))"
    by (simp add: p1 p2 p3)
  have e: "map fst (files (run ?env ''elements'' ?draw [?e1, ?e2, ?e3] world0))
         = [''elements/001_H.png'', ''elements/003_Li.png'']"
    using t [THEN conjunct2, THEN conjunct2, THEN conjunct2, THEN conjunct2, THEN conjunct1,
        THEN mp, OF h5]
    by (simp add: p1 p3 del: run.simps)
  show ?thesis unfolding Let_def by (intro conjI) (fact a, fact b, fact c, fact d, fact e)
qed

theorem batch_continues_counterexample:
  "log (run \<lparr>create_ok = (\<lambda>p. p \<noteq> ''elements/002_He.png''), encode_ok = (\<lambda>p. True)\<rparr>
          ''elements'' (drawTile Map.empty (monoFaces 600) 782 600)
          [\<lparr>Number = 1, Symbol = ''H'', Name = ''Hydrogen'', Mass = 1, Type = ''nonmetal''\<rparr>,
           \<lparr>Number = 2, Symbol = ''He'', Name = ''Helium'', Mass = 4, Type = ''noble gas''\<rparr>,
           \<lparr>Number = 3, Symbol = ''Li'', Name = ''Lithium'', Mass = 7, Type = ''alkali metal''\<rparr>]
          world0) = []
   \<and> map fst (files (run \<lparr>create_ok = (\<lambda>p. p \<noteq> ''elements/002_He.png''), encode_ok = (\<lambda>p. True)\<rparr>
          ''elements'' (drawTile Map.empty (monoFaces 600) 782 600)
          [\<lparr>Number = 1, Symbol = ''H'', Name = ''Hydrogen'', Mass = 1, Type = ''nonmetal''\<rparr>,
           \<lparr>Number = 2, Symbol = ''He'', Name = ''Helium'', Mass = 4, Type = ''noble gas''\<rparr>,
           \<lparr>Number = 3, Symbol = ''Li'', Name = ''Lithium'', Mass = 7, Type = ''alkali metal''\<rparr>]
          world0))
       = [''elements/001_H.png'', ''elements/003_Li.png'']"
  by (simp add: run_eq world0_def batch_eval del: run.simps)

section \<open>Floating-point rounding\<close>

lemma bitlen_pos: "0 < n \<Longrightarrow> 0 < bitlen n"
  by (subst bitlen.simps) simp

lemma bitlen_upper: "n < 2 ^ bitlen n"
proof (induction n rule: bitlen.induct)
  case (1 n)
  show ?case
  proof (cases "n = 0")
    case True
    then show ?thesis by simp
  next
    case False
    with 1 have "n div 2 < 2 ^ bitlen (n div 2)" by simp
    then have "n < 2 * 2 ^ bitlen (n div 2)" by arith
    with False show ?thesis by (subst bitlen.simps) simp
  qed
qed

lemma bitlen_lower: "0 < n \<Longrightarrow> 2 ^ (bitlen n - 1) \<le> n"
proof (induction n rule: bitlen.induct)
  case (1 n)
  show ?case
  proof (cases "n div 2 = 0")
    case True
    with "1.prems" have "n = 1" by arith
    then show ?thesis by (simp add: bitlen.simps)
  next
    case False
    then have pos: "0 < n div 2" by simp
    with 1 have ih: "2 ^ (bitlen (n div 2) - 1) \<le> n div 2" by simp
    have "bitlen n = Suc (bitlen (n div 2))" using "1.prems" by (subst bitlen.simps) simp
    moreover have "bitlen (n div 2) = Suc (bitlen (n div 2) - 1)" using bitlen_pos [OF pos] by simp
    ultimately have "(2::nat) ^ (bitlen n - 1) = 2 * 2 ^ (bitlen (n div 2) - 1)"
      by (metis diff_Suc_1 power_Suc)
    with ih show ?thesis by arith
  qed
qed

lemma rne_near: "\<bar>of_int (rne y) - y\<bar> \<le> 1 / 2"
proof -
  have "of_int \<lfloor>y\<rfloor> \<le> y" "y < of_int \<lfloor>y\<rfloor> + 1" by linarith+
  then show ?thesis by (auto simp: rne_def Let_def)
qed

lemma rne_of_int: "rne (of_int k) = k"
  by (simp add: rne_def)

lemma rne_ge: "of_int k - 1 / 2 < y \<Longrightarrow> k \<le> rne y"
proof -
  assume a: "of_int k - 1 / 2 < y"
  have "y - 1 / 2 \<le> of_int (rne y)" using rne_near [of y] by linarith
  with a have "(of_int k :: rat) - 1 < of_int (rne y)" by linarith
  then have "(of_int (k - 1) :: rat) < of_int (rne y)" by simp
  then have "k - 1 < rne y" by (simp only: of_int_less_iff)
  then show ?thesis by simp
qed

lemma rne_le: "y < of_int k + 1 / 2 \<Longrightarrow> rne y \<le> k"
proof -
  assume a: "y < of_int k + 1 / 2"
  have "of_int (rne y) \<le> y + 1 / 2" using rne_near [of y] by linarith
  with a have "of_int (rne y) < (of_int k :: rat) + 1" by linarith
  then have "(of_int (rne y) :: rat) < of_int (k + 1)" by simp
  then have "rne y < k + 1" by (simp only: of_int_less_iff)
  then show ?thesis by simp
qed

lemma ilog2_bounds:
  assumes "0 < x"
  shows "2 powi (ilog2 x) \<le> x" and "x < 2 powi (ilog2 x + 1)"
proof -
  have "2 powi (ilog2 x) \<le> x \<and> x < 2 powi (ilog2 x + 1)"
  proof (cases "1 \<le> x")
    case True
    define n where "n = nat \<lfloor>x\<rfloor>"
    have n: "0 < n" "of_nat n \<le> x" "x < of_nat n + 1"
      using True by (simp_all add: n_def) linarith+
    define k where "k = bitlen n"
    have k: "0 < k" using bitlen_pos n(1) by (simp add: k_def)
    have il: "ilog2 x = int k - 1" using True by (simp add: ilog2_def n_def k_def)
    have "(2::nat) ^ (k - 1) \<le> n" using bitlen_lower n(1) by (simp add: k_def)
    then have "(of_nat ((2::nat) ^ (k - 1)) :: rat) \<le> of_nat n" by (simp only: of_nat_le_iff)
    then have "(of_nat ((2::nat) ^ (k - 1)) :: rat) \<le> x" using n(2) by (rule order_trans)
    then have lo: "(2::rat) ^ (k - 1) \<le> x" by simp
    have "n + 1 \<le> 2 ^ k" using bitlen_upper [of n] by (simp add: k_def)
    then have "(of_nat (n + 1) :: rat) \<le> of_nat ((2::nat) ^ k)" by (simp only: of_nat_le_iff)
    then have "(of_nat n :: rat) + 1 \<le> 2 ^ k" by simp
    then have hi: "x < (2::rat) ^ k" using n(3) by linarith
    have p1: "(2::rat) powi (int k - 1) = 2 ^ (k - 1)"
      using k by (simp add: power_int_def nat_diff_distrib')
    have p2: "(2::rat) powi (int k - 1 + 1) = 2 ^ k" by simp
    show ?thesis unfolding il p1 p2 using lo hi by simp
  next
    case False
    then have x1: "x < 1" by simp
    define m where "m = nat (\<lceil>1 / x\<rceil> - 1)"
    have inv: "1 < 1 / x" using assms x1 by simp
    then have c2: "2 \<le> \<lceil>1 / x\<rceil>" by linarith
    have m: "0 < m" "of_nat m < 1 / x" "1 / x \<le> of_nat m + 1"
      using c2 by (simp_all add: m_def) linarith+
    define k where "k = bitlen m"
    have k: "0 < k" using bitlen_pos m(1) by (simp add: k_def)
    have il: "ilog2 x = - int k" using False by (simp add: ilog2_def m_def k_def)
    have "(2::nat) ^ (k - 1) \<le> m" using bitlen_lower m(1) by (simp add: k_def)
    then have "(of_nat ((2::nat) ^ (k - 1)) :: rat) \<le> of_nat m" by (simp only: of_nat_le_iff)
    then have "(of_nat ((2::nat) ^ (k - 1)) :: rat) < 1 / x" using m(2) by (rule order_le_less_trans)
    then have "(2::rat) ^ (k - 1) < 1 / x" by simp
    then have hi: "x < 1 / 2 ^ (k - 1)" using assms by (simp add: field_simps)
    have "m + 1 \<le> 2 ^ k" using bitlen_upper [of m] by (simp add: k_def)
    then have "(of_nat (m + 1) :: rat) \<le> of_nat ((2::nat) ^ k)" by (simp only: of_nat_le_iff)
    then have "(of_nat m :: rat) + 1 \<le> 2 ^ k" by simp
    then have "1 / x \<le> (2::rat) ^ k" using m(3) by linarith
    then have lo: "1 / 2 ^ k \<le> x" using assms by (simp add: field_simps)
    have p1: "(2::rat) powi (- int k) = 1 / 2 ^ k" by (simp add: power_int_minus_divide)
    have "- int k + 1 = - int (k - 1)" using k by simp
    then have p2: "(2::rat) powi (- int k + 1) = 1 / 2 ^ (k - 1)"
      by (simp only: power_int_minus_divide power_int_of_nat)
    show ?thesis unfolding il p1 p2 using lo hi by simp
  qed
  then show "2 powi (ilog2 x) \<le> x" and "x < 2 powi (ilog2 x + 1)" by simp_all
qed


lemma ilog2_unique:
  assumes "0 < x" "2 powi k \<le> x" "x < 2 powi (k + 1)"
  shows "ilog2 x = k"
proof (rule ccontr)
  assume ne: "ilog2 x \<noteq> k"
  show False
  proof (cases "ilog2 x < k")
    case True
    then have "(2::rat) powi (ilog2 x + 1) \<le> 2 powi k"
      by (intro power_int_increasing) simp_all
    with ilog2_bounds(2) [OF assms(1)] assms(2) show False by linarith
  next
    case False
    with ne have "k + 1 \<le> ilog2 x" by simp
    then have "(2::rat) powi (k + 1) \<le> 2 powi (ilog2 x)"
      by (intro power_int_increasing) simp_all
    with ilog2_bounds(1) [OF assms(1)] assms(3) show False by linarith
  qed
qed

lemma powi_split: "(2::rat) powi (j + int n) = 2 ^ n * 2 powi j"
proof -
  have "(2::rat) powi (int n + j) = 2 powi (int n) * 2 powi j"
    by (rule power_int_add) simp
  then show ?thesis by (simp add: add.commute)
qed

lemma ulp_pos: "0 < ulp x"
  by (simp add: ulp_def)

lemma ulp_bounds:
  assumes "0 < x"
  shows "2 ^ 52 * ulp x \<le> x" and "x < 2 ^ 53 * ulp x"
proof -
  have a: "(2::rat) powi (ilog2 x) = 2 ^ 52 * ulp x"
    unfolding ulp_def using powi_split [of "ilog2 x - 52" 52] by simp
  have "ilog2 x + 1 = ilog2 x - 52 + int 53" by simp
  then have b: "(2::rat) powi (ilog2 x + 1) = 2 ^ 53 * ulp x"
    unfolding ulp_def by (simp only: powi_split)
  show "2 ^ 52 * ulp x \<le> x" using ilog2_bounds(1) [OF assms] by (simp only: a)
  show "x < 2 ^ 53 * ulp x" using ilog2_bounds(2) [OF assms] by (simp only: b)
qed

lemma f64_round_pos: "0 < x \<Longrightarrow> f64_round x = of_int (rne (x / ulp x)) * ulp x"
  by (simp add: f64_round_def ulp_def Let_def)

lemma ulp_unique:
  assumes "0 < x" "2 ^ 52 * 2 powi j \<le> x" "x < 2 ^ 53 * 2 powi j"
  shows "ulp x = 2 powi j"
proof -
  have a: "(2::rat) powi (j + 52) = 2 ^ 52 * 2 powi j"
    using powi_split [of j 52] by simp
  have "j + 52 + 1 = j + int 53" by simp
  then have b: "(2::rat) powi (j + 52 + 1) = 2 ^ 53 * 2 powi j"
    by (simp only: powi_split)
  have "ilog2 x = j + 52"
    using assms by (intro ilog2_unique) (simp_all only: a b)
  then show ?thesis by (simp add: ulp_def)
qed

lemma ratio_value: "ratio = 5877173583858628 / 2 ^ 52"
proof -
  have pos: "(0::rat) < 2456 / 1882" by simp
  have u: "ulp (2456 / 1882) = 2 powi (- 52)"
    using pos by (rule ulp_unique) (simp_all add: power_int_minus_divide)
  have r: "rne (2456 / 1882 / 2 powi (- 52)) = 5877173583858628"
  proof (rule antisym)
    show "rne (2456 / 1882 / 2 powi (- 52)) \<le> 5877173583858628"
      by (rule rne_le) (simp add: power_int_minus_divide)
    show "5877173583858628 \<le> rne (2456 / 1882 / 2 powi (- 52))"
      by (rule rne_ge) (simp add: power_int_minus_divide)
  qed
  show ?thesis
    unfolding ratio_def f64_div_def f64_round_pos [OF pos] u r
    by (simp add: power_int_minus_divide)
qed


lemma ulp_inverse_power:
  assumes "0 < x" "x < 2 ^ N" "N \<le> 53"
  shows "\<exists>n. 53 \<le> n + N \<and> ulp x = 1 / 2 ^ n"
proof -
  have "ilog2 x < int N"
  proof (rule ccontr)
    assume "\<not> ilog2 x < int N"
    then have "(2::rat) powi (int N) \<le> 2 powi (ilog2 x)"
      by (intro power_int_increasing) simp_all
    with ilog2_bounds(1) [OF assms(1)] assms(2) show False by simp
  qed
  with assms(3) have j: "ilog2 x - 52 = - int (nat (52 - ilog2 x))" "53 \<le> nat (52 - ilog2 x) + N"
    by simp_all
  have "ulp x = 1 / 2 ^ nat (52 - ilog2 x)"
    unfolding ulp_def j(1) by (simp only: power_int_minus_divide power_int_of_nat)
  with j(2) show ?thesis by blast
qed

lemma f64_of_int_exact:
  assumes "0 < h" "h < 2 ^ 53"
  shows "f64_of_int h = of_int h"
proof -
  have pos: "(0::rat) < of_int h" using assms(1) by simp
  have "(of_int h :: rat) < of_int (2 ^ 53)" using assms(2) by (simp only: of_int_less_iff)
  then have lt: "(of_int h :: rat) < 2 ^ 53" by simp
  obtain n where n: "ulp (of_int h) = 1 / 2 ^ n"
    using ulp_inverse_power [OF pos lt] by auto
  have "of_int h / ulp (of_int h :: rat) = of_int (h * 2 ^ n)" by (simp add: n)
  then have "rne (of_int h / ulp (of_int h :: rat)) = h * 2 ^ n" by (simp only: rne_of_int)
  then show ?thesis
    unfolding f64_of_int_def f64_round_pos [OF pos] by (simp add: n)
qed

lemma tileW_floor:
  assumes "0 < h" "h < 2 ^ 41"
  shows "tileW h = (2456 * h) div 1882"
proof -
  define a where "a = 2456 * h"
  define q where "q = a div 1882"
  define x where "x = ratio * of_int h"
  have hr: "(1::rat) \<le> of_int h" "(of_int h :: rat) < 2 ^ 41"
  proof -
    from assms(1) have "1 \<le> h" by simp
    then show "(1::rat) \<le> of_int h" by (simp only: of_int_1_le_iff)
    have "(of_int h :: rat) < of_int (2 ^ 41)" using assms(2) by (simp only: of_int_less_iff)
    then show "(of_int h :: rat) < 2 ^ 41" by simp
  qed
  have x: "x = 5877173583858628 / 2 ^ 52 * of_int h" by (simp add: x_def ratio_value)
  have xpos: "0 < x" and xlt: "x < 2 ^ 42" using hr unfolding x by simp_all
  have h53: "h < 2 ^ 53" using assms(2) by simp
  have conv: "f64_mul ratio (f64_of_int h) = f64_round x"
    by (simp add: f64_mul_def f64_of_int_exact [OF assms(1) h53] x_def)
  obtain n where n: "53 \<le> n + 42" "ulp x = 1 / 2 ^ n"
    using ulp_inverse_power [OF xpos xlt] by auto
  then have n11: "11 \<le> n" by simp
  have un: "ulp x \<le> 1 / 2 ^ 11"
  proof -
    have "(2::rat) ^ 11 \<le> 2 ^ n" using n11 by (intro power_increasing) simp_all
    then show ?thesis unfolding n(2) by (simp add: field_simps)
  qed
  have uhalf: "x / 2 ^ 54 < ulp x / 2" using ulp_bounds(2) [OF xpos] by (simp add: field_simps)
  \<comment> \<open>the exact quotient lies between \<open>q\<close> and \<open>q + 1881 / 1882\<close>\<close>
  have "1882 * q + a mod 1882 = a" unfolding q_def by (rule mult_div_mod_eq)
  moreover have "0 \<le> a mod 1882" "a mod 1882 < 1882" by simp_all
  ultimately have "1882 * q \<le> a" "a \<le> 1882 * q + 1881" by linarith+
  then have "(of_int (1882 * q) :: rat) \<le> of_int a"
      "(of_int a :: rat) \<le> of_int (1882 * q + 1881)"
    by (simp_all only: of_int_le_iff)
  then have "(1882 * of_int q :: rat) \<le> 2456 * of_int h"
      "(2456 * of_int h :: rat) \<le> 1882 * of_int q + 1881"
    by (simp_all add: a_def)
  then have ql: "of_int q \<le> 2456 / 1882 * (of_int h :: rat)"
    and qu: "2456 / 1882 * (of_int h :: rat) \<le> of_int q + 1881 / 1882"
    by (simp_all add: field_simps)
  \<comment> \<open>the float product is below the exact one by less than half a unit\<close>
  have d1: "2456 / 1882 * (of_int h :: rat) - x \<le> x / 2 ^ 54"
    using hr(1) unfolding x by (simp add: field_simps)
  have d2: "x \<le> 2456 / 1882 * (of_int h :: rat)"
    using hr(1) unfolding x by (simp add: field_simps)
  have lo: "of_int q - ulp x / 2 < x" using ql d1 uhalf by linarith
  have hi: "x < of_int q + 1 - ulp x / 2" using qu d2 un by simp
  have y1: "of_int (q * 2 ^ n) - 1 / 2 < x / ulp x"
    using lo unfolding n(2) by (simp add: field_simps)
  have y2: "x / ulp x < of_int ((q + 1) * 2 ^ n - 1) + 1 / 2"
    using hi unfolding n(2) by (simp add: field_simps)
  have r1: "q * 2 ^ n \<le> rne (x / ulp x)" using y1 by (rule rne_ge)
  have r2: "rne (x / ulp x) \<le> (q + 1) * 2 ^ n - 1" using y2 by (rule rne_le)
  from r1 have "(of_int (q * 2 ^ n) :: rat) \<le> of_int (rne (x / ulp x))"
    by (simp only: of_int_le_iff)
  then have v1: "of_int q \<le> f64_round x"
    unfolding f64_round_pos [OF xpos] unfolding n(2) by (simp add: field_simps)
  from r2 have "(of_int (rne (x / ulp x)) :: rat) \<le> of_int ((q + 1) * 2 ^ n - 1)"
    by (simp only: of_int_le_iff)
  then have "f64_round x \<le> of_int q + 1 - 1 / 2 ^ n"
    unfolding f64_round_pos [OF xpos] unfolding n(2) by (simp add: field_simps)
  moreover have "(0::rat) < 1 / 2 ^ n" by simp
  ultimately have v2: "f64_round x < of_int q + 1" by linarith
  have "0 \<le> q" using assms(1) by (simp add: q_def a_def pos_imp_zdiv_nonneg_iff)
  then have "(0::rat) \<le> of_int q" by simp
  with v1 have nonneg: "0 \<le> f64_round x" by linarith
  have "\<lfloor>f64_round x\<rfloor> = q" using v1 v2 by linarith
  then show ?thesis by (simp add: tileW_def conv truncInt_def nonneg q_def a_def)
qed


lemma rne_mono: "x \<le> y \<Longrightarrow> rne x \<le> rne y"
proof (rule ccontr)
  assume xy: "x \<le> y" and "\<not> rne x \<le> rne y"
  then have "rne y + 1 \<le> rne x" by simp
  then have "(of_int (rne y + 1) :: rat) \<le> of_int (rne x)" by (simp only: of_int_le_iff)
  then have a: "(of_int (rne y) :: rat) + 1 \<le> of_int (rne x)" by simp
  have "of_int (rne x) \<le> x + 1 / 2" "y - 1 / 2 \<le> of_int (rne y)"
    using rne_near [of x] rne_near [of y] by linarith+
  with a xy have "x = y" by linarith
  with \<open>\<not> rne x \<le> rne y\<close> show False by simp
qed

lemma f64_round_zero: "f64_round 0 = 0"
  by (simp add: f64_round_def)

lemma f64_round_minus: "f64_round (- x) = - f64_round x"
  by (simp add: f64_round_def Let_def sgn_minus)

lemma f64_round_error:
  assumes "0 < x"
  shows "\<bar>f64_round x - x\<bar> \<le> x / 2 ^ 53"
proof -
  have near: "\<bar>of_int (rne (x / ulp x)) - x / ulp x\<bar> \<le> 1 / 2" by (rule rne_near)
  have "\<bar>of_int (rne (x / ulp x)) - x / ulp x\<bar> * ulp x \<le> 1 / 2 * ulp x"
    by (rule mult_right_mono [OF near]) (simp add: ulp_pos less_imp_le)
  moreover have "\<bar>of_int (rne (x / ulp x)) - x / ulp x\<bar> * ulp x
      = \<bar>of_int (rne (x / ulp x)) * ulp x - x\<bar>"
  proof -
    have "of_int (rne (x / ulp x)) * ulp x - x = (of_int (rne (x / ulp x)) - x / ulp x) * ulp x"
      using ulp_pos [of x] by (simp add: left_diff_distrib)
    then show ?thesis using ulp_pos [of x] by (simp only: abs_mult abs_of_pos)
  qed
  ultimately have "\<bar>f64_round x - x\<bar> \<le> ulp x / 2"
    unfolding f64_round_pos [OF assms] by simp
  moreover have "ulp x / 2 \<le> x / 2 ^ 53" using ulp_bounds(1) [OF assms] by (simp add: field_simps)
  ultimately show ?thesis by linarith
qed

lemma f64_round_mono:
  assumes "0 < x" "x \<le> y"
  shows "f64_round x \<le> f64_round y"
proof -
  have ypos: "0 < y" using assms by linarith
  have le: "ilog2 x \<le> ilog2 y"
  proof (rule ccontr)
    assume "\<not> ilog2 x \<le> ilog2 y"
    then have "ilog2 y + 1 \<le> ilog2 x" by simp
    then have "(2::rat) powi (ilog2 y + 1) \<le> 2 powi (ilog2 x)"
      by (intro power_int_increasing) simp_all
    with ilog2_bounds(1) [OF assms(1)] ilog2_bounds(2) [OF ypos] assms(2) show False by linarith
  qed
  show ?thesis
  proof (cases "ilog2 x = ilog2 y")
    case True
    then have u: "ulp x = ulp y" by (simp add: ulp_def)
    have "x / ulp y \<le> y / ulp y" using assms(2) ulp_pos [of y] by (simp add: divide_right_mono)
    then have "rne (x / ulp y) \<le> rne (y / ulp y)" by (rule rne_mono)
    then have "(of_int (rne (x / ulp y)) :: rat) \<le> of_int (rne (y / ulp y))"
      by (simp only: of_int_le_iff)
    then show ?thesis
      unfolding f64_round_pos [OF assms(1)] f64_round_pos [OF ypos] u
      using ulp_pos [of y] by (simp add: mult_right_mono)
  next
    case False
    with le have "ilog2 x + 1 \<le> ilog2 y" by simp
    then have mid: "(2::rat) powi (ilog2 x + 1) \<le> 2 powi (ilog2 y)"
      by (intro power_int_increasing) simp_all
    have "x / ulp x < 2 ^ 53" using ulp_bounds(2) [OF assms(1)] ulp_pos [of x]
      by (simp add: field_simps)
    moreover have "(of_int (2 ^ 53) :: rat) = 2 ^ 53" by simp
    ultimately have "x / ulp x < of_int (2 ^ 53) + 1 / 2" by linarith
    then have "rne (x / ulp x) \<le> 2 ^ 53" by (rule rne_le)
    then have "(of_int (rne (x / ulp x)) :: rat) \<le> of_int (2 ^ 53)" by (simp only: of_int_le_iff)
    then have "of_int (rne (x / ulp x)) * ulp x \<le> 2 ^ 53 * ulp x"
      using ulp_pos [of x] by (simp add: mult_right_mono)
    moreover have "ilog2 x + 1 = ilog2 x - 52 + int 53" by simp
    then have "(2::rat) powi (ilog2 x + 1) = 2 ^ 53 * ulp x"
      unfolding ulp_def by (simp only: powi_split)
    ultimately have a: "f64_round x \<le> 2 powi (ilog2 x + 1)"
      unfolding f64_round_pos [OF assms(1)] by simp
    have "2 ^ 52 \<le> y / ulp y" using ulp_bounds(1) [OF ypos] ulp_pos [of y]
      by (simp add: field_simps)
    moreover have "(of_int (2 ^ 52) :: rat) = 2 ^ 52" by simp
    ultimately have "of_int (2 ^ 52) - 1 / 2 < y / ulp y" by linarith
    then have "2 ^ 52 \<le> rne (y / ulp y)" by (rule rne_ge)
    then have "(of_int (2 ^ 52) :: rat) \<le> of_int (rne (y / ulp y))" by (simp only: of_int_le_iff)
    then have "2 ^ 52 * ulp y \<le> of_int (rne (y / ulp y)) * ulp y"
      using ulp_pos [of y] by (simp add: mult_right_mono)
    moreover have "(2::rat) powi (ilog2 y) = 2 ^ 52 * ulp y"
      unfolding ulp_def using powi_split [of "ilog2 y - 52" 52] by simp
    ultimately have b: "2 powi (ilog2 y) \<le> f64_round y"
      unfolding f64_round_pos [OF ypos] by simp
    from a mid b show ?thesis by linarith
  qed
qed

lemma tileW_zero: "tileW 0 = 0"
  by (simp add: tileW_def f64_of_int_def f64_mul_def f64_round_zero truncInt_def)

lemma tileW_minus: "tileW (- h) = - tileW h"
proof -
  have "truncInt (- v) = - truncInt v" for v
    by (simp add: truncInt_def ceiling_def)
  then show ?thesis
    by (simp add: tileW_def f64_of_int_def f64_mul_def f64_round_minus)
qed

lemma bt_pos: "0 \<le> h \<Longrightarrow> bt h = h div 15"
  by (simp add: bt_def signed_divide_int_def sgn_if)

lemma pad_pos: "0 \<le> h \<Longrightarrow> pad h = h div 20"
  by (simp add: pad_def signed_divide_int_def sgn_if)

section \<open>Canvas geometry and font sizes\<close>

lemma tileW_600: "tileW 600 = 782"
  using tileW_floor [of 600] by simp

lemma double_div_15: "(2 * a) div 15 = 2 * (a div 15) \<or> (2 * a) div 15 = 2 * (a div 15) + 1"
  for a :: int
  by arith

lemma double_div_20: "(2 * a) div 20 = 2 * (a div 20) \<or> (2 * a) div 20 = 2 * (a div 20) + 1"
  for a :: int
  by arith

lemma double_div_1882:
  "(2 * a) div 1882 = 2 * (a div 1882) \<or> (2 * a) div 1882 = 2 * (a div 1882) + 1"
  for a :: int
  by arith

lemma width_bounds:
  assumes "0 < h" "h < 2 ^ 41"
  shows "h \<le> tileW h" and "of_int (tileW h) \<le> of_int h * (2456 / 1882 :: rat)"
    and "of_int h * (2456 / 1882 :: rat) < of_int (tileW h) + 1"
proof -
  define a where "a = 2456 * h"
  have w: "tileW h = a div 1882" unfolding a_def using assms by (rule tileW_floor)
  have e: "1882 * (a div 1882) + a mod 1882 = a" by (rule mult_div_mod_eq)
  have m: "0 \<le> a mod 1882" "a mod 1882 < 1882" by simp_all
  define q where "q = a div 1882"
  define r where "r = a mod 1882"
  from e m have qr: "1882 * q + r = a" "0 \<le> r" "r < 1882"
    unfolding q_def r_def by simp_all
  from qr have "1882 * q \<le> a" by linarith
  then have lo: "1882 * tileW h \<le> 2456 * h" unfolding w q_def a_def by simp
  from qr have "a < 1882 * q + 1882" by linarith
  then have hi: "2456 * h < 1882 * tileW h + 1882" unfolding w q_def a_def by simp
  from hi assms(1) show "h \<le> tileW h" by linarith
  from lo have "(of_int (1882 * tileW h) :: rat) \<le> of_int (2456 * h)"
    by (simp only: of_int_le_iff)
  then show "of_int (tileW h) \<le> of_int h * (2456 / 1882 :: rat)" by (simp add: field_simps)
  from hi have "(of_int (2456 * h) :: rat) < of_int (1882 * tileW h + 1882)"
    by (simp only: of_int_less_iff)
  then show "of_int h * (2456 / 1882 :: rat) < of_int (tileW h) + 1" by (simp add: field_simps)
qed

text \<open>
  C5, as the code has it. Border thickness and padding are the height divided by 15 and
  by 20 in Go's integer division. For a positive height (below \<open>2\<^sup>4\<^sup>1\<close>, far beyond
  any canvas that can be allocated) they are \<open>H div 15\<close> and \<open>H div 20\<close>, the width is
  positive and at least the height, and twice the border thickness and twice the
  padding are at most the smaller dimension. The program does not check the flag: a
  height of zero or below gives a canvas that is not positive.
\<close>

theorem canvas_geometry:
  "bt H = H sdiv 15 \<and> pad H = H sdiv 20
   \<and> (0 < H \<and> H < 2 ^ 41 \<longrightarrow>
         bt H = H div 15 \<and> pad H = H div 20
         \<and> 0 < tileW H \<and> H \<le> tileW H
         \<and> 2 * bt H \<le> min (tileW H) H \<and> 2 * pad H \<le> min (tileW H) H)"
proof -
  have pos: "bt H = H div 15 \<and> pad H = H div 20
         \<and> 0 < tileW H \<and> H \<le> tileW H
         \<and> 2 * bt H \<le> min (tileW H) H \<and> 2 * pad H \<le> min (tileW H) H"
    if h: "0 < H" "H < 2 ^ 41"
  proof -
    have b: "bt H = H div 15" and p: "pad H = H div 20" using h(1) by (simp_all add: bt_pos pad_pos)
    have w: "H \<le> tileW H" using h by (rule width_bounds(1))
    then have m: "min (tileW H) H = H" by simp
    have "2 * (H div 15) \<le> H" using h(1) by arith
    moreover have "2 * (H div 20) \<le> H" using h(1) by arith
    ultimately have "2 * (H div 15) \<le> H" "2 * (H div 20) \<le> H" by simp_all
    with b p w h(1) show ?thesis unfolding m by simp
  qed
  have sd: "bt H = H sdiv 15 \<and> pad H = H sdiv 20" by (simp add: bt_def pad_def)
  from sd pos show ?thesis by blast
qed

theorem canvas_geometry_witness:
  "bt 600 = 40 \<and> pad 600 = 30 \<and> 0 < tileW 600 \<and> 600 \<le> tileW 600
   \<and> 2 * bt 600 \<le> min (tileW 600) 600 \<and> 2 * pad 600 \<le> min (tileW 600) 600"
proof -
  have h: "(0::int) < 600 \<and> (600::int) < 2 ^ 41" by simp
  from canvas_geometry [of 600, THEN conjunct2, THEN conjunct2, THEN mp, OF h]
  show ?thesis by simp
qed

theorem canvas_geometry_counterexample:
  "tileW 0 = 0 \<and> \<not> 0 < tileW 0
   \<and> tileW (- 600) = - 782 \<and> bt (- 600) = - 40
   \<and> \<not> 2 * bt (- 600) \<le> min (tileW (- 600)) (- 600)"
proof -
  have a: "tileW 0 = 0" by (rule tileW_zero)
  have b: "tileW (- 600) = - 782" using tileW_minus [of 600] tileW_600 by simp
  have c: "bt (- 600) = - 40" by (simp add: bt_def signed_divide_int_def)
  show ?thesis unfolding a b c by simp
qed

text \<open>
  C7, as the code has it. The width is the float product of the height and the ratio
  with its fraction discarded, not rounded: for a positive height below \<open>2\<^sup>4\<^sup>0\<close> it is
  the integer part of \<open>h \<times> 2456 / 1882\<close>, which is 782 at height 600. Doubling the
  height gives twice the width or one more, twice the border thickness or one more,
  and twice the padding or one more.
\<close>

theorem width_scaling:
  "(0 < h \<and> h < 2 ^ 40 \<longrightarrow>
      tileW h = \<lfloor>of_int h * (2456 / 1882 :: rat)\<rfloor>
      \<and> tileW h = (2456 * h) div 1882
      \<and> (tileW (2 * h) = 2 * tileW h \<or> tileW (2 * h) = 2 * tileW h + 1)
      \<and> (bt (2 * h) = 2 * bt h \<or> bt (2 * h) = 2 * bt h + 1)
      \<and> (pad (2 * h) = 2 * pad h \<or> pad (2 * h) = 2 * pad h + 1))
   \<and> tileW 600 = 782"
proof -
  have main: "tileW h = \<lfloor>of_int h * (2456 / 1882 :: rat)\<rfloor>
      \<and> tileW h = (2456 * h) div 1882
      \<and> (tileW (2 * h) = 2 * tileW h \<or> tileW (2 * h) = 2 * tileW h + 1)
      \<and> (bt (2 * h) = 2 * bt h \<or> bt (2 * h) = 2 * bt h + 1)
      \<and> (pad (2 * h) = 2 * pad h \<or> pad (2 * h) = 2 * pad h + 1)"
    if h: "0 < h" "h < 2 ^ 40"
  proof -
    have h41: "h < 2 ^ 41" using h(2) by simp
    have h2: "0 < 2 * h" "2 * h < 2 ^ 41" using h by simp_all
    have w1: "tileW h = (2456 * h) div 1882" using h(1) h41 by (rule tileW_floor)
    have w2: "tileW (2 * h) = (2456 * (2 * h)) div 1882" using h2 by (rule tileW_floor)
    have fl: "tileW h = \<lfloor>of_int h * (2456 / 1882 :: rat)\<rfloor>"
      using width_bounds(2,3) [OF h(1) h41] by linarith
    have "2456 * (2 * h) = 2 * (2456 * h)" by simp
    then have dw: "tileW (2 * h) = 2 * tileW h \<or> tileW (2 * h) = 2 * tileW h + 1"
      unfolding w1 w2 using double_div_1882 [of "2456 * h"] by simp
    have db: "bt (2 * h) = 2 * bt h \<or> bt (2 * h) = 2 * bt h + 1"
      using h(1) double_div_15 [of h] by (simp add: bt_pos)
    have dp: "pad (2 * h) = 2 * pad h \<or> pad (2 * h) = 2 * pad h + 1"
      using h(1) double_div_20 [of h] by (simp add: pad_pos)
    from fl w1 dw db dp show ?thesis by (intro conjI)
  qed
  from main tileW_600 show ?thesis by blast
qed

theorem width_scaling_witness:
  "tileW 600 = \<lfloor>of_int 600 * (2456 / 1882 :: rat)\<rfloor>
   \<and> (tileW (2 * 600) = 2 * tileW 600 \<or> tileW (2 * 600) = 2 * tileW 600 + 1)
   \<and> (bt (2 * 600) = 2 * bt 600 \<or> bt (2 * 600) = 2 * bt 600 + 1)
   \<and> (pad (2 * 600) = 2 * pad 600 \<or> pad (2 * 600) = 2 * pad 600 + 1)"
proof -
  have h: "(0::int) < 600 \<and> (600::int) < 2 ^ 40" by simp
  from width_scaling [of 600, THEN conjunct1, THEN mp, OF h]
  show ?thesis by blast
qed

theorem width_scaling_counterexample:
  "tileW 600 = 782 \<and> round (600 * (2456 / 1882) :: rat) = 783
   \<and> bt 8 = 0 \<and> bt 16 = 1 \<and> pad 10 = 0 \<and> pad 20 = 1"
proof -
  have r: "round (600 * (2456 / 1882) :: rat) = 783"
    unfolding round_def by (simp add: floor_unique)
  have b: "bt 8 = 0" "bt 16 = 1" "pad 10 = 0" "pad 20 = 1"
    by (simp_all add: bt_def pad_def signed_divide_int_def)
  from tileW_600 r b show ?thesis by (intro conjI)
qed

lemma font_size_near:
  assumes "0 < H" "H < 2 ^ 53" "0 < c"
  shows "\<bar>f64_div (f64_of_int H) c - of_int H / c\<bar> \<le> of_int H / c / 2 ^ 53"
proof -
  have "(0::rat) < of_int H / c" using assms(1,3) by simp
  then show ?thesis
    unfolding f64_div_def f64_of_int_exact [OF assms(1,2)] by (rule f64_round_error)
qed

lemma font_size_mono:
  assumes "0 \<le> H" "H < 2 ^ 53" "0 < c" "c \<le> d"
  shows "f64_div (f64_of_int H) d \<le> f64_div (f64_of_int H) c"
proof (cases "H = 0")
  case True
  then show ?thesis by (simp add: f64_div_def f64_of_int_def f64_round_zero)
next
  case False
  with assms(1) have pos: "0 < H" by simp
  have d: "0 < d" using assms(3,4) by linarith
  have "(0::rat) < of_int H / d" using pos d by simp
  moreover have "of_int H / d \<le> of_int H / c"
    using pos assms(3,4) by (simp add: frac_le)
  ultimately show ?thesis
    unfolding f64_div_def f64_of_int_exact [OF pos assms(2)] by (rule f64_round_mono)
qed

lemma f64_of_int_pos:
  assumes "0 < H"
  shows "0 < f64_of_int H"
proof -
  have one: "f64_of_int 1 = 1" using f64_of_int_exact [of 1] by simp
  have "f64_round (of_int 1) \<le> f64_round (of_int H)"
    by (rule f64_round_mono) (use assms in simp_all)
  then have "1 \<le> f64_of_int H" using one by (simp add: f64_of_int_def)
  then show ?thesis by linarith
qed

lemma font_size_order:
  assumes "0 \<le> H" "0 < c" "c \<le> d"
  shows "f64_div (f64_of_int H) d \<le> f64_div (f64_of_int H) c"
proof (cases "H = 0")
  case True
  then show ?thesis by (simp add: f64_div_def f64_of_int_def f64_round_zero)
next
  case False
  with assms(1) have pos: "0 < f64_of_int H" by (simp add: f64_of_int_pos)
  have d: "0 < d" using assms(2,3) by linarith
  have "0 < f64_of_int H / d" using pos d by simp
  moreover have "f64_of_int H / d \<le> f64_of_int H / c"
    using pos assms(2,3) by (simp add: frac_le)
  ultimately show ?thesis
    unfolding f64_div_def by (rule f64_round_mono)
qed

text \<open>
  C6, as the code has it. Each role's font size is the height divided, in \<^verbatim>\<open>float64\<close>,
  by the role's constant: 10 for the number, 3 for the symbol, 7 for the name, 10 for
  the mass. The divisor of the symbol is strictly the smallest, and for every height
  that is not negative, however large, the symbol's size is the largest. The constants
  of the number and of the mass are declared apart and are equal, so these two roles
  have the same size. For a height below \<open>2\<^sup>5\<^sup>3\<close> each size is the exact quotient up to
  one rounding.
\<close>

theorem font_sizes:
  "numSize = 10 \<and> symSize = 3 \<and> nameSize = 7 \<and> massSize = 10
   \<and> symSize < numSize \<and> symSize < nameSize \<and> symSize < massSize
   \<and> numFontSize H = f64_div (f64_of_int H) numSize
   \<and> symFontSize H = f64_div (f64_of_int H) symSize
   \<and> nameFontSize H = f64_div (f64_of_int H) nameSize
   \<and> massFontSize H = f64_div (f64_of_int H) massSize
   \<and> numFontSize H = massFontSize H
   \<and> (0 \<le> H \<longrightarrow>
         numFontSize H \<le> symFontSize H
         \<and> nameFontSize H \<le> symFontSize H
         \<and> massFontSize H \<le> symFontSize H)
   \<and> (0 < H \<and> H < 2 ^ 53 \<longrightarrow>
         \<bar>numFontSize H - of_int H / numSize\<bar> \<le> of_int H / numSize / 2 ^ 53
         \<and> \<bar>symFontSize H - of_int H / symSize\<bar> \<le> of_int H / symSize / 2 ^ 53
         \<and> \<bar>nameFontSize H - of_int H / nameSize\<bar> \<le> of_int H / nameSize / 2 ^ 53
         \<and> \<bar>massFontSize H - of_int H / massSize\<bar> \<le> of_int H / massSize / 2 ^ 53
         \<and> numFontSize H \<le> symFontSize H
         \<and> nameFontSize H \<le> symFontSize H
         \<and> massFontSize H \<le> symFontSize H)"
proof -
  have cs: "numSize = 10 \<and> symSize = 3 \<and> nameSize = 7 \<and> massSize = 10
      \<and> symSize < numSize \<and> symSize < nameSize \<and> symSize < massSize"
    by (simp add: numSize_def symSize_def nameSize_def massSize_def)
  have defs: "numFontSize H = f64_div (f64_of_int H) numSize
      \<and> symFontSize H = f64_div (f64_of_int H) symSize
      \<and> nameFontSize H = f64_div (f64_of_int H) nameSize
      \<and> massFontSize H = f64_div (f64_of_int H) massSize"
    by (simp add: numFontSize_def symFontSize_def nameFontSize_def massFontSize_def)
  have same: "numFontSize H = massFontSize H"
    by (simp add: numFontSize_def massFontSize_def numSize_def massSize_def)
  have p: "(0::rat) < numSize" "(0::rat) < symSize" "(0::rat) < nameSize" "(0::rat) < massSize"
    by (simp_all add: numSize_def symSize_def nameSize_def massSize_def)
  have l: "symSize \<le> numSize" "symSize \<le> nameSize" "symSize \<le> massSize"
    by (simp_all add: numSize_def symSize_def nameSize_def massSize_def)
  have order: "numFontSize H \<le> symFontSize H
         \<and> nameFontSize H \<le> symFontSize H
         \<and> massFontSize H \<le> symFontSize H"
    if h0: "0 \<le> H"
    unfolding numFontSize_def symFontSize_def nameFontSize_def massFontSize_def
    using font_size_order [OF h0 p(2) l(1)] font_size_order [OF h0 p(2) l(2)]
      font_size_order [OF h0 p(2) l(3)]
    by (intro conjI)
  have sizes: "\<bar>numFontSize H - of_int H / numSize\<bar> \<le> of_int H / numSize / 2 ^ 53
         \<and> \<bar>symFontSize H - of_int H / symSize\<bar> \<le> of_int H / symSize / 2 ^ 53
         \<and> \<bar>nameFontSize H - of_int H / nameSize\<bar> \<le> of_int H / nameSize / 2 ^ 53
         \<and> \<bar>massFontSize H - of_int H / massSize\<bar> \<le> of_int H / massSize / 2 ^ 53
         \<and> numFontSize H \<le> symFontSize H
         \<and> nameFontSize H \<le> symFontSize H
         \<and> massFontSize H \<le> symFontSize H"
    if h: "0 < H" "H < 2 ^ 53"
  proof -
    have h0: "0 \<le> H" using h(1) by simp
    have near: "\<bar>numFontSize H - of_int H / numSize\<bar> \<le> of_int H / numSize / 2 ^ 53
         \<and> \<bar>symFontSize H - of_int H / symSize\<bar> \<le> of_int H / symSize / 2 ^ 53
         \<and> \<bar>nameFontSize H - of_int H / nameSize\<bar> \<le> of_int H / nameSize / 2 ^ 53
         \<and> \<bar>massFontSize H - of_int H / massSize\<bar> \<le> of_int H / massSize / 2 ^ 53"
      unfolding numFontSize_def symFontSize_def nameFontSize_def massFontSize_def
      using font_size_near [OF h p(1)] font_size_near [OF h p(2)] font_size_near [OF h p(3)]
        font_size_near [OF h p(4)]
      by (intro conjI)
    from near order [OF h0] show ?thesis by blast
  qed
  from cs defs same order sizes show ?thesis by blast
qed

theorem font_sizes_witness:
  "\<bar>symFontSize 600 - of_int 600 / symSize\<bar> \<le> of_int 600 / symSize / 2 ^ 53
   \<and> numFontSize 600 \<le> symFontSize 600
   \<and> nameFontSize 600 \<le> symFontSize 600
   \<and> massFontSize 600 \<le> symFontSize 600
   \<and> numFontSize 0 \<le> symFontSize 0
   \<and> nameFontSize (2 ^ 60) \<le> symFontSize (2 ^ 60)"
proof -
  have h: "(0::int) < 600 \<and> (600::int) < 2 ^ 53" by simp
  have z: "(0::int) \<le> 0" and b: "(0::int) \<le> 2 ^ 60" by simp_all
  from font_sizes [of 600] h have a: "\<bar>symFontSize 600 - of_int 600 / symSize\<bar> \<le> of_int 600 / symSize / 2 ^ 53
   \<and> numFontSize 600 \<le> symFontSize 600
   \<and> nameFontSize 600 \<le> symFontSize 600
   \<and> massFontSize 600 \<le> symFontSize 600" by blast
  from font_sizes [of 0] z have c: "numFontSize 0 \<le> symFontSize 0" by blast
  from font_sizes [of "2 ^ 60"] b have d: "nameFontSize (2 ^ 60) \<le> symFontSize (2 ^ 60)" by blast
  from a c d show ?thesis by blast
qed

theorem font_sizes_counterexample:
  "numSize = massSize \<and> numFontSize 600 = massFontSize 600"
  by (simp add: numFontSize_def massFontSize_def numSize_def massSize_def)
end
